theory Spec2Isabelle
  imports Main "HOL-Library.AList"
begin

section \<open>Nexus chat server: the session, room and message-routing engine\<close>

text \<open>
  A shallow embedding of \<^verbatim>\<open>src/server/server.py\<close>. The module-level globals
  \<^verbatim>\<open>db\<close>, \<^verbatim>\<open>clients\<close> and \<^verbatim>\<open>room_users\<close> become one state record that every
  handler takes and returns. Each handler is one function named after the Python function
  it embeds, with the same order of checks.

  Conventions.
  \<^item> A Python \<^verbatim>\<open>str\<close> is a \<open>string\<close>; a character stands for the code point of the
    same number (U+0000 to U+00FF), so \<open>length\<close> is Python's \<^verbatim>\<open>len\<close> on such text.
  \<^item> A Python \<^verbatim>\<open>dict\<close> whose iteration order is observed (\<^verbatim>\<open>clients\<close>,
    \<^verbatim>\<open>db["rooms"]\<close>) is an association list in insertion order; the other dicts are maps.
  \<^item> A Python \<^verbatim>\<open>set\<close> (a value of \<^verbatim>\<open>room_users\<close>) is a list without duplicates.
    Python leaves the iteration order of a set open; the list fixes one.
  \<^item> \<^verbatim>\<open>send\<close> swallows every transport error, so the model records the packets the
    server writes, per connection handle, in the order of the calls.
  \<^item> The wall clock (\<^verbatim>\<open>ts()\<close>, \<^verbatim>\<open>full_ts()\<close>) and the digest \<^verbatim>\<open>hash_pw\<close> are
    parameters. \<^verbatim>\<open>save_data\<close> and \<^verbatim>\<open>log\<close> only write files and are left out.
  \<^item> An uncaught Python exception inside a handler is the outcome \<open>Raised\<close>, together
    with the state reached when it was raised.
\<close>

subsection \<open>Python string operations\<close>

definition is_space :: "char \<Rightarrow> bool" where
  \<comment> \<open>the characters \<^verbatim>\<open>str.strip()\<close> removes, among the code points below 256\<close>
  "is_space c = (let n = (of_char c :: nat) in
     (9 \<le> n \<and> n \<le> 13) \<or> (28 \<le> n \<and> n \<le> 32) \<or> n = 133 \<or> n = 160)"

definition strip :: "string \<Rightarrow> string" where
  "strip s = rev (dropWhile is_space (rev (dropWhile is_space s)))"

definition lower_char :: "char \<Rightarrow> char" where
  "lower_char c = (let n = (of_char c :: nat) in
     if (65 \<le> n \<and> n \<le> 90) \<or> (192 \<le> n \<and> n \<le> 222 \<and> n \<noteq> 215)
     then char_of (n + 32) else c)"

definition lower :: "string \<Rightarrow> string" where
  "lower s = map lower_char s"

definition replace_space_hyphen :: "string \<Rightarrow> string" where
  \<comment> \<open>\<^verbatim>\<open>.replace(" ", "-")\<close>\<close>
  "replace_space_hyphen s = map (\<lambda>c. if c = CHR '' '' then CHR ''-'' else c) s"

definition last_n :: "nat \<Rightarrow> 'a list \<Rightarrow> 'a list" where
  \<comment> \<open>\<^verbatim>\<open>xs[-n:]\<close> for a positive \<open>n\<close>\<close>
  "last_n n xs = drop (length xs - n) xs"

definition slice_from_neg :: "int \<Rightarrow> 'a list \<Rightarrow> 'a list" where
  \<comment> \<open>\<^verbatim>\<open>xs[-k:]\<close> for any integer \<open>k\<close>: the start index \<open>-k\<close> counts from the end when
      it is negative, and from the front otherwise (\<open>-0\<close> is \<open>0\<close>)\<close>
  "slice_from_neg k xs = (if 0 < k then last_n (nat k) xs else drop (nat (- k)) xs)"

fun str_le :: "string \<Rightarrow> string \<Rightarrow> bool" where
  \<comment> \<open>Python's \<^verbatim>\<open><=\<close> on \<^verbatim>\<open>str\<close>: lexicographic, by code point\<close>
  "str_le [] ys = True"
| "str_le (x # xs) [] = False"
| "str_le (x # xs) (y # ys) =
     (if x = y then str_le xs ys else (of_char x :: nat) < of_char y)"

definition get_or :: "'a option \<Rightarrow> 'a \<Rightarrow> 'a" where
  \<comment> \<open>\<^verbatim>\<open>pkt.get(key, default)\<close> on a field that may be absent\<close>
  "get_or v d = (case v of None \<Rightarrow> d | Some x \<Rightarrow> x)"

subsection \<open>Data model\<close>

type_synonym conn = nat

record entry =
  e_from :: string
  e_text :: string
  e_ts :: string

record dm_entry =
  d_from :: string
  d_to :: string
  d_text :: string
  d_ts :: string
  d_full_ts :: string

record room_data =
  topic :: string
  history :: "entry list"
  owner :: string

record account =
  pw :: string
  joined :: string
  bio :: string

text \<open>A value of \<^verbatim>\<open>clients\<close>; the keys \<^verbatim>\<open>addr\<close> and \<^verbatim>\<open>thread\<close> are never read.\<close>

record session =
  conn :: conn
  room :: string

record room_info =
  ri_name :: string
  ri_topic :: string
  ri_users :: nat
  ri_owner :: string

text \<open>
  The texts of the \<^verbatim>\<open>auth\<close> and \<^verbatim>\<open>system\<close> records, one constructor per message
  of the source, with the names the message interpolates.
\<close>

datatype auth_msg =
    ShortUsername       \<comment> \<open>"Username must be >= 2 characters."\<close>
  | UsernameTaken       \<comment> \<open>"Username already taken."\<close>
  | UserNotFound        \<comment> \<open>"User not found."\<close>
  | WrongPassword       \<comment> \<open>"Wrong password."\<close>
  | AlreadyLoggedIn     \<comment> \<open>"Already logged in from another session."\<close>
  | UnknownAction       \<comment> \<open>"Unknown action."\<close>

datatype notice =
    NoSuchRoom string           \<comment> \<open>"Room '...' does not exist."\<close>
  | AlreadyInRoom string        \<comment> \<open>"You are already in #..."\<close>
  | LeftRoom string string      \<comment> \<open>"... left #..."\<close>
  | JoinedRoom string string    \<comment> \<open>"... joined #..."\<close>
  | CameOnline string           \<comment> \<open>"... has come online."\<close>
  | WentOffline string          \<comment> \<open>"... went offline."\<close>
  | TooLong                     \<comment> \<open>"Message too long (max 1000 chars)."\<close>
  | BadRoomName                 \<comment> \<open>"Room name must be >= 2 characters."\<close>
  | RoomExists string           \<comment> \<open>"Room #... already exists."\<close>
  | RoomNotFound string         \<comment> \<open>"Room #... not found."\<close>
  | NotOwner                    \<comment> \<open>"Only the owner can delete a room."\<close>
  | Protected                   \<comment> \<open>"Cannot delete default rooms."\<close>
  | RoomDeleted string string   \<comment> \<open>"Room #... was deleted by ..."\<close>
  | SelfDM                      \<comment> \<open>"You can't DM yourself."\<close>
  | OfflineSaved string         \<comment> \<open>"... is offline. Message saved."\<close>
  | BioUpdated                  \<comment> \<open>"Bio updated."\<close>
  | NoSuchUser string           \<comment> \<open>"User '...' not found."\<close>

text \<open>The records the server writes.\<close>

datatype spkt =
    AuthOk string "room_info list" "string list"
  | AuthFail auth_msg
  | System notice
  | Joined string string "entry list" "string list"
  | Msg string entry
  | Dm dm_entry
  | RoomCreated string string string
  | Rooms "room_info list"
  | Online "string list"
  | History string "entry list"
  | DmHistory string "dm_entry list"
  | Whois string string string bool "string option"
  | Pong

text \<open>
  The records a client writes, after \<^verbatim>\<open>json.loads\<close>. A field is absent or holds a
  string; \<^verbatim>\<open>limit\<close> holds a JSON integer or a string, as the client of this repository
  sends it.
\<close>

datatype jlimit = LInt int | LStr string

record auth_packet =
  a_action :: "string option"
  a_username :: "string option"
  a_password :: "string option"

record packet =
  p_type :: "string option"
  p_text :: "string option"
  p_room :: "string option"
  p_name :: "string option"
  p_topic :: "string option"
  p_to :: "string option"
  p_with :: "string option"
  p_user :: "string option"
  p_bio :: "string option"
  p_limit :: "jlimit option"

record clock =
  ts :: string
  full_ts :: string

datatype pyerror = KeyError | ValueError

datatype outcome = Returned | Raised pyerror

record state =
  users :: "string \<rightharpoonup> account"
  rooms :: "(string \<times> room_data) list"
  dm_history :: "string \<rightharpoonup> dm_entry list"
  clients :: "(string \<times> session) list"
  room_users :: "string \<Rightarrow> string list"
  sent :: "(conn \<times> spkt) list"
  closed :: "conn set"

text \<open>The document \<^verbatim>\<open>load_data\<close> returns when no data file exists, and empty runtime state.\<close>

definition init_state :: state where
  "init_state = \<lparr>
     users = Map.empty,
     rooms = [
       (''general'', \<lparr>topic = ''General chat for everyone'', history = [], owner = ''system''\<rparr>),
       (''random'', \<lparr>topic = ''Random topics'', history = [], owner = ''system''\<rparr>),
       (''tech'', \<lparr>topic = ''Technology discussions'', history = [], owner = ''system''\<rparr>)],
     dm_history = Map.empty,
     clients = [],
     room_users = (\<lambda>r. []),
     sent = [],
     closed = {}\<rparr>"

subsection \<open>Helpers\<close>

definition send :: "state \<Rightarrow> conn \<Rightarrow> spkt \<Rightarrow> state" where
  "send s c pkt = s\<lparr>sent := sent s @ [(c, pkt)]\<rparr>"

definition close_conn :: "state \<Rightarrow> conn \<Rightarrow> state" where
  "close_conn s c = s\<lparr>closed := insert c (closed s)\<rparr>"

text \<open>
  The loop of \<^verbatim>\<open>broadcast_room\<close> and \<^verbatim>\<open>broadcast_all\<close> over the snapshot
  \<open>targets\<close>; \<open>exclude\<close> is \<open>None\<close> for Python's \<^verbatim>\<open>exclude=None\<close>.
\<close>

fun send_each :: "state \<Rightarrow> string list \<Rightarrow> spkt \<Rightarrow> string option \<Rightarrow> state" where
  "send_each s [] pkt exclude = s"
| "send_each s (uname # targets) pkt exclude =
     (if Some uname = exclude then send_each s targets pkt exclude
      else case map_of (clients s) uname of
        None \<Rightarrow> send_each s targets pkt exclude
      | Some info \<Rightarrow> send_each (send s (conn info) pkt) targets pkt exclude)"

definition broadcast_room :: "state \<Rightarrow> string \<Rightarrow> spkt \<Rightarrow> string option \<Rightarrow> state" where
  "broadcast_room s r pkt exclude = send_each s (room_users s r) pkt exclude"

definition broadcast_all :: "state \<Rightarrow> spkt \<Rightarrow> string option \<Rightarrow> state" where
  "broadcast_all s pkt exclude = send_each s (map fst (clients s)) pkt exclude"

definition online_list :: "state \<Rightarrow> string list" where
  "online_list s = map fst (clients s)"

definition room_list_payload :: "state \<Rightarrow> room_info list" where
  "room_list_payload s =
     map (\<lambda>(name, data). \<lparr>ri_name = name, ri_topic = topic data,
            ri_users = length (room_users s name), ri_owner = owner data\<rparr>) (rooms s)"

definition set_add :: "string \<Rightarrow> string list \<Rightarrow> string list" where
  \<comment> \<open>\<^verbatim>\<open>set.add\<close>\<close>
  "set_add x xs = (if x \<in> set xs then xs else xs @ [x])"

definition set_discard :: "string \<Rightarrow> string list \<Rightarrow> string list" where
  \<comment> \<open>\<^verbatim>\<open>set.discard\<close>\<close>
  "set_discard x xs = removeAll x xs"

definition append_history :: "state \<Rightarrow> string \<Rightarrow> entry \<Rightarrow> state option" where
  \<comment> \<open>\<open>None\<close> is the \<^verbatim>\<open>KeyError\<close> of \<^verbatim>\<open>db["rooms"][room]\<close>\<close>
  "append_history s r e =
     (case map_of (rooms s) r of
        None \<Rightarrow> None
      | Some data \<Rightarrow>
          let h = history data @ [e];
              h' = (if length h > 500 then last_n 500 h else h)
          in Some (s\<lparr>rooms := AList.update r (data\<lparr>history := h'\<rparr>) (rooms s)\<rparr>))"

subsection \<open>Actions\<close>

text \<open>
  \<^verbatim>\<open>_join_room\<close>. Nothing between the first test and the final \<^verbatim>\<open>send\<close> writes
  \<^verbatim>\<open>db["rooms"]\<close>, so the room's data read for the \<open>joined\<close> record is \<open>data\<close>.
\<close>

definition join_room :: "state \<Rightarrow> string \<Rightarrow> conn \<Rightarrow> string \<Rightarrow> bool \<Rightarrow> outcome \<times> state" where
  "join_room s username c room_name silent =
     (case map_of (rooms s) room_name of
        None \<Rightarrow> (Returned, send s c (System (NoSuchRoom room_name)))
      | Some data \<Rightarrow>
         (case map_of (clients s) username of
            None \<Rightarrow> (Raised KeyError, s)
          | Some info \<Rightarrow>
              let old_room = room info in
              if old_room = room_name
              then (Returned, send s c (System (AlreadyInRoom room_name)))
              else
                let ru1 = (room_users s)(old_room := set_discard username (room_users s old_room));
                    ru2 = ru1(room_name := set_add username (ru1 room_name));
                    s1 = s\<lparr>room_users := ru2,
                           clients := AList.update username (info\<lparr>room := room_name\<rparr>) (clients s)\<rparr>;
                    s2 = (if \<not> silent
                          then broadcast_room s1 old_room (System (LeftRoom username old_room))
                                 (Some username)
                          else s1);
                    s3 = broadcast_room s2 room_name (System (JoinedRoom username room_name))
                           (Some username)
                in (Returned,
                    send s3 c (Joined room_name (topic data) (last_n 50 (history data))
                                 (room_users s3 room_name)))))"

definition disconnect :: "state \<Rightarrow> string option \<Rightarrow> conn \<Rightarrow> state" where
  \<comment> \<open>\<^verbatim>\<open>_disconnect\<close>; \<^verbatim>\<open>if username:\<close> is false for \<^verbatim>\<open>None\<close> and for the empty string\<close>
  "disconnect s username c =
     (case username of
        None \<Rightarrow> close_conn s c
      | Some u \<Rightarrow>
          if u = [] then close_conn s c
          else
            let r = (case map_of (clients s) u of None \<Rightarrow> ''general'' | Some info \<Rightarrow> room info);
                s1 = s\<lparr>room_users := (room_users s)(r := set_discard u (room_users s r)),
                       clients := AList.delete u (clients s)\<rparr>;
                s2 = broadcast_all s1 (System (WentOffline u)) None
            in close_conn s2 c)"

text \<open>
  The authentication part of \<^verbatim>\<open>handle_client\<close>, up to the message loop, in the two
  pieces between which the source releases the lock. \<open>auth_check\<close> is lines 151 to 181: it
  ends with the handler's \<^verbatim>\<open>uname\<close> when every check has passed, and with \<open>None\<close>
  when the handler has returned (every \<^verbatim>\<open>return\<close> runs the \<^verbatim>\<open>finally\<close> clause,
  \<^verbatim>\<open>_disconnect(None, conn)\<close>). \<open>auth_open\<close> is lines 183 to 201: it stores the
  session without looking at \<^verbatim>\<open>clients\<close> again, acknowledges, joins the default room and
  notifies the others; it ends with the handler's \<^verbatim>\<open>username\<close> when the handler enters
  its loop. \<open>handle_auth\<close> is a handler that runs both pieces with no other handler in
  between.
\<close>

definition auth_fail :: "state \<Rightarrow> conn \<Rightarrow> auth_msg \<Rightarrow> string option \<times> state" where
  "auth_fail s c m = (None, disconnect (close_conn (send s c (AuthFail m)) c) None c)"

definition auth_check ::
  "(string \<Rightarrow> string) \<Rightarrow> state \<Rightarrow> conn \<Rightarrow> auth_packet \<Rightarrow> clock \<Rightarrow> string option \<times> state" where
  "auth_check hash_pw s c auth clk =
     (let action = a_action auth;
          uname = lower (strip (get_or (a_username auth) []));
          password = get_or (a_password auth) []
      in
      if length uname < 2 then auth_fail s c ShortUsername
      else if action = Some ''register'' then
        (if uname \<in> dom (users s) then auth_fail s c UsernameTaken
         else (Some uname,
               s\<lparr>users := (users s)(uname \<mapsto>
                   \<lparr>pw = hash_pw password, joined = full_ts clk, bio = []\<rparr>)\<rparr>))
      else if action = Some ''login'' then
        (case users s uname of
           None \<Rightarrow> auth_fail s c UserNotFound
         | Some acct \<Rightarrow>
             if pw acct \<noteq> hash_pw password then auth_fail s c WrongPassword
             else if uname \<in> fst ` set (clients s) then auth_fail s c AlreadyLoggedIn
             else (Some uname, s))
      else auth_fail s c UnknownAction)"

definition auth_open :: "state \<Rightarrow> conn \<Rightarrow> string \<Rightarrow> string option \<times> state" where
  "auth_open s c username =
     (let s1 = s\<lparr>clients := AList.update username \<lparr>conn = c, room = ''general''\<rparr> (clients s)\<rparr>;
          s2 = send s1 c (AuthOk username (room_list_payload s1) (online_list s1))
      in case join_room s2 username c ''general'' False of
           (Raised e, s3) \<Rightarrow> (None, disconnect s3 (Some username) c)
         | (Returned, s3) \<Rightarrow>
             (Some username, broadcast_all s3 (System (CameOnline username)) (Some username)))"

definition handle_auth ::
  "(string \<Rightarrow> string) \<Rightarrow> state \<Rightarrow> conn \<Rightarrow> auth_packet \<Rightarrow> clock \<Rightarrow> string option \<times> state" where
  "handle_auth hash_pw s c auth clk =
     (case auth_check hash_pw s c auth clk of
        (None, s1) \<Rightarrow> (None, s1)
      | (Some uname, s1) \<Rightarrow> auth_open s1 c uname)"

definition handle_msg :: "state \<Rightarrow> string \<Rightarrow> conn \<Rightarrow> packet \<Rightarrow> clock \<Rightarrow> outcome \<times> state" where
  "handle_msg s username c pkt clk =
     (case map_of (clients s) username of
        None \<Rightarrow> (Raised KeyError, s)
      | Some info \<Rightarrow>
          let r = room info;
              text = strip (get_or (p_text pkt) [])
          in
          if text = [] then (Returned, s)
          else if length text > 1000 then (Returned, send s c (System TooLong))
          else
            let e = \<lparr>e_from = username, e_text = text, e_ts = ts clk\<rparr> in
            (case append_history s r e of
               None \<Rightarrow> (Raised KeyError, s)
             | Some s1 \<Rightarrow> (Returned, broadcast_room s1 r (Msg r e) None)))"

definition create_room :: "state \<Rightarrow> string \<Rightarrow> conn \<Rightarrow> packet \<Rightarrow> outcome \<times> state" where
  "create_room s username c pkt =
     (let name = replace_space_hyphen (lower (strip (get_or (p_name pkt) [])));
          tp = take 200 (strip (get_or (p_topic pkt) []))
      in
      if length name < 2 then (Returned, send s c (System BadRoomName))
      else if name \<in> fst ` set (rooms s) then (Returned, send s c (System (RoomExists name)))
      else
        let s1 = s\<lparr>rooms := AList.update name \<lparr>topic = tp, history = [], owner = username\<rparr> (rooms s)\<rparr>;
            s2 = broadcast_all s1 (RoomCreated name tp username) None
        in join_room s2 username c name False)"

text \<open>
  The loop of \<^verbatim>\<open>_delete_room\<close> over the snapshot \<^verbatim>\<open>evicted\<close>: every member who is
  online is joined to the default room.
\<close>

fun evict :: "state \<Rightarrow> string list \<Rightarrow> outcome \<times> state" where
  "evict s [] = (Returned, s)"
| "evict s (uname # rest) =
     (case map_of (clients s) uname of
        None \<Rightarrow> evict s rest
      | Some info \<Rightarrow>
          (case join_room s uname (conn info) ''general'' False of
             (Raised e, s1) \<Rightarrow> (Raised e, s1)
           | (Returned, s1) \<Rightarrow> evict s1 rest))"

definition delete_room :: "state \<Rightarrow> string \<Rightarrow> conn \<Rightarrow> packet \<Rightarrow> outcome \<times> state" where
  "delete_room s username c pkt =
     (let name = lower (strip (get_or (p_name pkt) [])) in
      case map_of (rooms s) name of
        None \<Rightarrow> (Returned, send s c (System (RoomNotFound name)))
      | Some data \<Rightarrow>
          if owner data \<noteq> username then (Returned, send s c (System NotOwner))
          else if name \<in> {''general'', ''random'', ''tech''}
          then (Returned, send s c (System Protected))
          else
            (case evict s (room_users s name) of
               (Raised e, s1) \<Rightarrow> (Raised e, s1)
             | (Returned, s1) \<Rightarrow>
                 if name \<notin> fst ` set (rooms s1) then (Raised KeyError, s1)
                 else
                   let s2 = s1\<lparr>rooms := AList.delete name (rooms s1)\<rparr>
                   in (Returned, broadcast_all s2 (System (RoomDeleted name username)) None)))"

definition dm_key :: "string \<Rightarrow> string \<Rightarrow> string" where
  \<comment> \<open>\<^verbatim>\<open>":".join(sorted([a, b]))\<close>\<close>
  "dm_key a b = (if str_le a b then a @ '':'' @ b else b @ '':'' @ a)"

definition handle_dm :: "state \<Rightarrow> string \<Rightarrow> conn \<Rightarrow> packet \<Rightarrow> clock \<Rightarrow> outcome \<times> state" where
  "handle_dm s username c pkt clk =
     (let target = lower (strip (get_or (p_to pkt) []));
          text = strip (get_or (p_text pkt) [])
      in
      if target = [] \<or> text = [] then (Returned, s)
      else if target = username then (Returned, send s c (System SelfDM))
      else
        let target_info = map_of (clients s) target;
            e = \<lparr>d_from = username, d_to = target, d_text = text,
                 d_ts = ts clk, d_full_ts = full_ts clk\<rparr>;
            key = dm_key username target;
            thread = get_or (dm_history s key) [] @ [e];
            thread' = (if length thread > 200 then last_n 200 thread else thread);
            s1 = s\<lparr>dm_history := (dm_history s)(key \<mapsto> thread')\<rparr>;
            s2 = send s1 c (Dm e)
        in case target_info of
             Some info \<Rightarrow> (Returned, send s2 (conn info) (Dm e))
           | None \<Rightarrow> (Returned, send s2 c (System (OfflineSaved target))))"

text \<open>
  \<^verbatim>\<open>int(x)\<close> on a JSON integer or a string. On a string CPython accepts surrounding
  white space, one sign, and decimal digits with single underscores between them; anything
  else is a \<^verbatim>\<open>ValueError\<close>, here \<open>None\<close>. The white space of \<^verbatim>\<open>int\<close> is not that
  of \<^verbatim>\<open>str.strip\<close>: below U+007F only tab, line feed, vertical tab, form feed, carriage
  return and space count, so U+001C to U+001F next to the digits are an error. A string of
  more than 4300 digits is refused as well (the interpreter's default limit, which the
  server does not change).
\<close>

definition is_int_space :: "char \<Rightarrow> bool" where
  "is_int_space c = (let n = (of_char c :: nat) in
     (9 \<le> n \<and> n \<le> 13) \<or> n = 32 \<or> n = 133 \<or> n = 160)"

definition int_strip :: "string \<Rightarrow> string" where
  "int_strip str = rev (dropWhile is_int_space (rev (dropWhile is_int_space str)))"

definition is_digit :: "char \<Rightarrow> bool" where
  "is_digit c = (let n = (of_char c :: nat) in 48 \<le> n \<and> n \<le> 57)"

fun digits_ok :: "string \<Rightarrow> bool" where
  "digits_ok [] = False"
| "digits_ok [c] = is_digit c"
| "digits_ok (c # d # cs) =
     (is_digit c \<and> (if d = CHR ''_'' then digits_ok cs else digits_ok (d # cs)))"

definition digits_value :: "string \<Rightarrow> nat" where
  "digits_value ds =
     foldl (\<lambda>a c. 10 * a + (of_char c - 48)) 0 (filter (\<lambda>c. c \<noteq> CHR ''_'') ds)"

definition max_str_digits :: nat where
  "max_str_digits = 4300"

definition py_int_str :: "string \<Rightarrow> int option" where
  "py_int_str str =
     (let t = int_strip str;
          neg = (t \<noteq> [] \<and> hd t = CHR ''-'');
          ds = (if t \<noteq> [] \<and> (hd t = CHR ''-'' \<or> hd t = CHR ''+'') then tl t else t)
      in if digits_ok ds \<and> length (filter is_digit ds) \<le> max_str_digits
         then Some (if neg then - int (digits_value ds) else int (digits_value ds))
         else None)"

definition py_int :: "jlimit \<Rightarrow> int option" where
  "py_int v = (case v of LInt n \<Rightarrow> Some n | LStr str \<Rightarrow> py_int_str str)"

definition send_history :: "state \<Rightarrow> string \<Rightarrow> conn \<Rightarrow> packet \<Rightarrow> outcome \<times> state" where
  \<comment> \<open>\<^verbatim>\<open>pkt.get("room") or clients[username]["room"]\<close>: an absent or empty room name
      means the session's current room\<close>
  "send_history s username c pkt =
     (case (if get_or (p_room pkt) [] \<noteq> [] then p_room pkt
            else map_option room (map_of (clients s) username)) of
        None \<Rightarrow> (Raised KeyError, s)
      | Some r \<Rightarrow>
          (case py_int (get_or (p_limit pkt) (LInt 50)) of
             None \<Rightarrow> (Raised ValueError, s)
           | Some n \<Rightarrow>
               let limit = min n 200 in
               (case map_of (rooms s) r of
                  None \<Rightarrow> (Returned, send s c (System (RoomNotFound r)))
                | Some data \<Rightarrow>
                    (Returned, send s c (History r (slice_from_neg limit (history data)))))))"

definition send_dm_history :: "state \<Rightarrow> string \<Rightarrow> conn \<Rightarrow> packet \<Rightarrow> outcome \<times> state" where
  "send_dm_history s username c pkt =
     (let target = lower (strip (get_or (p_with pkt) []));
          key = dm_key username target;
          msgs = last_n 50 (get_or (dm_history s key) [])
      in (Returned, send s c (DmHistory target msgs)))"

definition whois :: "state \<Rightarrow> string \<Rightarrow> conn \<Rightarrow> packet \<Rightarrow> outcome \<times> state" where
  "whois s username c pkt =
     (let target = lower (strip (get_or (p_user pkt) [])) in
      case users s target of
        None \<Rightarrow> (Returned, send s c (System (NoSuchUser target)))
      | Some u \<Rightarrow>
          (case map_of (clients s) target of
             None \<Rightarrow> (Returned, send s c (Whois target (joined u) (bio u) False None))
           | Some info \<Rightarrow>
               (Returned, send s c (Whois target (joined u) (bio u) True (Some (room info))))))"

definition set_bio :: "state \<Rightarrow> string \<Rightarrow> conn \<Rightarrow> packet \<Rightarrow> outcome \<times> state" where
  \<comment> \<open>the \<^verbatim>\<open>set_bio\<close> branch of the message loop\<close>
  "set_bio s username c pkt =
     (let b = take 200 (get_or (p_bio pkt) []) in
      case users s username of
        None \<Rightarrow> (Raised KeyError, s)
      | Some u \<Rightarrow>
          (Returned, send (s\<lparr>users := (users s)(username \<mapsto> u\<lparr>bio := b\<rparr>)\<rparr>) c (System BioUpdated)))"

subsection \<open>The message loop\<close>

definition known_types :: "string list" where
  "known_types = [''msg'', ''join'', ''create_room'', ''delete_room'', ''dm'', ''history'',
     ''dm_history'', ''rooms'', ''online'', ''whois'', ''set_bio'', ''ping'']"

text \<open>One iteration of the \<^verbatim>\<open>while True\<close> loop of \<^verbatim>\<open>handle_client\<close>, after \<^verbatim>\<open>recv_pkt\<close>.\<close>

definition dispatch :: "state \<Rightarrow> string \<Rightarrow> conn \<Rightarrow> packet \<Rightarrow> clock \<Rightarrow> outcome \<times> state" where
  "dispatch s username c pkt clk =
     (let t = p_type pkt in
      if t = Some ''msg'' then handle_msg s username c pkt clk
      else if t = Some ''join'' then join_room s username c (get_or (p_room pkt) ''general'') True
      else if t = Some ''create_room'' then create_room s username c pkt
      else if t = Some ''delete_room'' then delete_room s username c pkt
      else if t = Some ''dm'' then handle_dm s username c pkt clk
      else if t = Some ''history'' then send_history s username c pkt
      else if t = Some ''dm_history'' then send_dm_history s username c pkt
      else if t = Some ''rooms'' then (Returned, send s c (Rooms (room_list_payload s)))
      else if t = Some ''online'' then (Returned, send s c (Online (online_list s)))
      else if t = Some ''whois'' then whois s username c pkt
      else if t = Some ''set_bio'' then set_bio s username c pkt
      else if t = Some ''ping'' then (Returned, send s c Pong)
      else (Returned, s))"

text \<open>
  The iteration with the \<^verbatim>\<open>except\<close> and \<^verbatim>\<open>finally\<close> clauses around it: an exception
  leaves the loop and runs \<^verbatim>\<open>_disconnect\<close>. The flag says whether the handler is still
  in its loop, that is whether the connection is still served.
\<close>

definition handle_pkt :: "state \<Rightarrow> string \<Rightarrow> conn \<Rightarrow> packet \<Rightarrow> clock \<Rightarrow> bool \<times> state" where
  "handle_pkt s username c pkt clk =
     (case dispatch s username c pkt clk of
        (Returned, s1) \<Rightarrow> (True, s1)
      | (Raised e, s1) \<Rightarrow> (False, disconnect s1 (Some username) c))"

subsection \<open>Reachable states\<close>

text \<open>
  The server runs one handler thread per connection. A thread is known by its connection
  handle and its local \<^verbatim>\<open>username\<close>. \<open>running hash_pw waiting serving s\<close> says that
  the server can be in state \<open>s\<close> with the threads \<open>waiting\<close> between their checks and
  the storing of their session (after line 181, before line 184) and the threads
  \<open>serving\<close> in their message loop. A step is one of the two pieces of the
  authentication, one iteration of the message loop, or a disconnect:
  \<^item> \<open>passed\<close>, \<open>refused\<close>: a new connection runs its checks;
  \<^item> \<open>opened\<close>, \<open>aborted\<close>: a waiting thread stores its session and enters its loop, or
    leaves on an exception;
  \<^item> \<open>served\<close>, \<open>raised\<close>: a serving thread handles a record and stays in its loop, or
    leaves it on an exception;
  \<^item> \<open>gone\<close>: the \<^verbatim>\<open>recv_pkt\<close> of a serving thread fails, the peer being gone or the
    line not JSON, and the thread disconnects;
  \<^item> \<open>lost\<close>: a connection ends before its first record is read.
  Any number of threads may be waiting at the same time, for the same name too. The
  pieces themselves are not interleaved with each other.
\<close>

type_synonym handler = "conn \<times> string"

inductive running :: "(string \<Rightarrow> string) \<Rightarrow> handler set \<Rightarrow> handler set \<Rightarrow> state \<Rightarrow> bool"
  for hash_pw where
  start: "running hash_pw {} {} init_state"
| passed: "running hash_pw waiting serving s \<Longrightarrow>
           auth_check hash_pw s c a clk = (Some u, s') \<Longrightarrow>
           running hash_pw (insert (c, u) waiting) serving s'"
| refused: "running hash_pw waiting serving s \<Longrightarrow>
            auth_check hash_pw s c a clk = (None, s') \<Longrightarrow>
            running hash_pw waiting serving s'"
| opened: "running hash_pw waiting serving s \<Longrightarrow> (c, u) \<in> waiting \<Longrightarrow>
           auth_open s c u = (Some v, s') \<Longrightarrow>
           running hash_pw (waiting - {(c, u)}) (insert (c, v) serving) s'"
| aborted: "running hash_pw waiting serving s \<Longrightarrow> (c, u) \<in> waiting \<Longrightarrow>
            auth_open s c u = (None, s') \<Longrightarrow>
            running hash_pw (waiting - {(c, u)}) serving s'"
| served: "running hash_pw waiting serving s \<Longrightarrow> (c, u) \<in> serving \<Longrightarrow>
           handle_pkt s u c pkt clk = (True, s') \<Longrightarrow>
           running hash_pw waiting serving s'"
| raised: "running hash_pw waiting serving s \<Longrightarrow> (c, u) \<in> serving \<Longrightarrow>
           handle_pkt s u c pkt clk = (False, s') \<Longrightarrow>
           running hash_pw waiting (serving - {(c, u)}) s'"
| gone: "running hash_pw waiting serving s \<Longrightarrow> (c, u) \<in> serving \<Longrightarrow>
         running hash_pw waiting (serving - {(c, u)}) (disconnect s (Some u) c)"
| lost: "running hash_pw waiting serving s \<Longrightarrow>
         running hash_pw waiting serving (disconnect s None c)"

definition reachable :: "(string \<Rightarrow> string) \<Rightarrow> state \<Rightarrow> bool" where
  "reachable hash_pw s = (\<exists>waiting serving. running hash_pw waiting serving s)"

subsection \<open>Invariants of the reachable states\<close>

definition defaults_kept :: "state \<Rightarrow> bool" where
  "defaults_kept s =
     (\<forall>d \<in> {''general'', ''random'', ''tech''}.
        \<exists>data. map_of (rooms s) d = Some data \<and> owner data = ''system'')"

definition capped :: "state \<Rightarrow> bool" where
  "capped s =
     ((\<forall>r data. map_of (rooms s) r = Some data \<longrightarrow> length (history data) \<le> 500) \<and>
      (\<forall>k thread. dm_history s k = Some thread \<longrightarrow> length thread \<le> 200))"

subsection \<open>A concrete run\<close>

text \<open>
  On a fresh server \<open>alice\<close> registers over connection 4; later she sends two room
  messages and a direct message to \<open>bob\<close>, who has no account. The digest is the
  identity in this run.

  Two more runs start after the registration. In the first, \<open>alice\<close> disconnects and
  then logs in over the connections 5 and 6 at the same time: both threads pass their
  checks before either stores its session. In the second, \<open>eve\<close> registers over
  connection 5, \<open>alice\<close> sends a direct message to the name \<open>bob:eve\<close>, and \<open>eve\<close>
  asks for her history with the name \<open>alice:bob\<close>.
\<close>

definition no_hash :: "string \<Rightarrow> string" where
  "no_hash password = password"

definition clk0 :: clock where
  "clk0 = \<lparr>ts = ''12:00'', full_ts = ''2024-01-01 12:00:00''\<rparr>"

definition auth_pkt :: "string \<Rightarrow> string \<Rightarrow> string \<Rightarrow> auth_packet" where
  "auth_pkt action uname password =
     \<lparr>a_action = Some action, a_username = Some uname, a_password = Some password\<rparr>"

definition empty_pkt :: "string \<Rightarrow> packet" where
  \<comment> \<open>a record with only its \<^verbatim>\<open>type\<close> field\<close>
  "empty_pkt t = \<lparr>p_type = Some t, p_text = None, p_room = None, p_name = None,
     p_topic = None, p_to = None, p_with = None, p_user = None, p_bio = None, p_limit = None\<rparr>"

definition msg_pkt :: "string \<Rightarrow> packet" where
  "msg_pkt text = (empty_pkt ''msg'')\<lparr>p_text := Some text\<rparr>"

definition delete_pkt :: "string \<Rightarrow> packet" where
  "delete_pkt name = (empty_pkt ''delete_room'')\<lparr>p_name := Some name\<rparr>"

definition history_pkt :: "jlimit \<Rightarrow> packet" where
  \<comment> \<open>a history request without a room name: the current room is meant\<close>
  "history_pkt v = (empty_pkt ''history'')\<lparr>p_limit := Some v\<rparr>"

definition dm_pkt :: "string \<Rightarrow> string \<Rightarrow> packet" where
  "dm_pkt target text = (empty_pkt ''dm'')\<lparr>p_to := Some target, p_text := Some text\<rparr>"

definition dm_history_pkt :: "string \<Rightarrow> packet" where
  "dm_history_pkt target = (empty_pkt ''dm_history'')\<lparr>p_with := Some target\<rparr>"

definition s_alice :: state where
  "s_alice = snd (handle_auth no_hash init_state 4 (auth_pkt ''register'' ''alice'' ''pw1'') clk0)"

definition s_hello :: state where
  "s_hello = snd (handle_pkt s_alice ''alice'' 4 (msg_pkt ''hello'') clk0)"

definition s_two :: state where
  "s_two = snd (handle_pkt s_hello ''alice'' 4 (msg_pkt ''again'') clk0)"


definition s_left :: state where
  "s_left = disconnect s_alice (Some ''alice'') 4"

definition s_five :: state where
  "s_five = snd (auth_open s_left 5 ''alice'')"

definition s_six :: state where
  "s_six = snd (auth_open s_five 6 ''alice'')"

definition s_eve :: state where
  "s_eve = snd (handle_auth no_hash s_alice 5 (auth_pkt ''register'' ''eve'' ''pw2'') clk0)"

definition s_secret :: state where
  "s_secret = snd (handle_pkt s_eve ''alice'' 4 (dm_pkt ''bob:eve'' ''secret'') clk0)"

section \<open>Properties of the helpers and of the reachable states\<close>

subsection \<open>Which fields a helper touches\<close>

lemma send_fields [simp]:
  "users (send s c p) = users s" "rooms (send s c p) = rooms s"
  "dm_history (send s c p) = dm_history s" "clients (send s c p) = clients s"
  "room_users (send s c p) = room_users s" "closed (send s c p) = closed s"
  "sent (send s c p) = sent s @ [(c, p)]"
  by (simp_all add: send_def)

lemma close_conn_fields [simp]:
  "users (close_conn s c) = users s" "rooms (close_conn s c) = rooms s"
  "dm_history (close_conn s c) = dm_history s" "clients (close_conn s c) = clients s"
  "room_users (close_conn s c) = room_users s" "closed (close_conn s c) = insert c (closed s)"
  "sent (close_conn s c) = sent s"
  by (simp_all add: close_conn_def)

lemma send_each_fields [simp]:
  "users (send_each s t p e) = users s" "rooms (send_each s t p e) = rooms s"
  "dm_history (send_each s t p e) = dm_history s" "clients (send_each s t p e) = clients s"
  "room_users (send_each s t p e) = room_users s" "closed (send_each s t p e) = closed s"
  by (induction t arbitrary: s; simp split: option.splits)+

lemma broadcast_room_fields [simp]:
  "users (broadcast_room s r p e) = users s" "rooms (broadcast_room s r p e) = rooms s"
  "dm_history (broadcast_room s r p e) = dm_history s"
  "clients (broadcast_room s r p e) = clients s"
  "room_users (broadcast_room s r p e) = room_users s"
  "closed (broadcast_room s r p e) = closed s"
  by (simp_all add: broadcast_room_def)

lemma broadcast_all_fields [simp]:
  "users (broadcast_all s p e) = users s" "rooms (broadcast_all s p e) = rooms s"
  "dm_history (broadcast_all s p e) = dm_history s"
  "clients (broadcast_all s p e) = clients s"
  "room_users (broadcast_all s p e) = room_users s"
  "closed (broadcast_all s p e) = closed s"
  by (simp_all add: broadcast_all_def)

lemma set_set_add [simp]: "set (set_add x xs) = insert x (set xs)"
  by (auto simp: set_add_def)

lemma set_set_discard [simp]: "set (set_discard x xs) = set xs - {x}"
  by (auto simp: set_discard_def)

lemma in_keys_iff: "k \<in> fst ` set al \<longleftrightarrow> map_of al k \<noteq> None"
  by (simp add: map_of_eq_None_iff)

subsection \<open>Joining a room\<close>

lemma join_room_frame:
  assumes "join_room s u c r b = (out, s')"
  shows "users s' = users s" "rooms s' = rooms s" "dm_history s' = dm_history s"
    "closed s' = closed s"
  using assms by (auto simp: join_room_def Let_def split: option.splits if_splits)

subsection \<open>Disconnecting\<close>

lemma disconnect_frame [simp]:
  "users (disconnect s uo c) = users s" "rooms (disconnect s uo c) = rooms s"
  "dm_history (disconnect s uo c) = dm_history s"
  by (simp_all add: disconnect_def Let_def split: option.splits)

subsection \<open>Evicting the members of a room\<close>

lemma evict_preserves:
  assumes "evict s us = (out, s')" "P s"
    and step: "\<And>t u c o' t'. P t \<Longrightarrow> join_room t u c ''general'' False = (o', t') \<Longrightarrow> P t'"
  shows "P s'"
  using assms(1,2)
proof (induction us arbitrary: s)
  case Nil
  then show ?case by simp
next
  case (Cons uname rest)
  show ?case
  proof (cases "map_of (clients s) uname")
    case None
    with Cons show ?thesis by simp
  next
    case (Some info)
    obtain o1 s1 where j: "join_room s uname (conn info) ''general'' False = (o1, s1)"
      by (cases "join_room s uname (conn info) ''general'' False")
    have p1: "P s1" using step[OF Cons.prems(2) j] .
    show ?thesis
    proof (cases o1)
      case Returned
      with Cons.prems(1) Some j have "evict s1 rest = (out, s')" by simp
      from Cons.IH[OF this p1] show ?thesis .
    next
      case (Raised e)
      with Cons.prems(1) Some j have "s' = s1" by simp
      with p1 show ?thesis by simp
    qed
  qed
qed

lemma evict_frame:
  assumes "evict s us = (out, s')"
  shows "users s' = users s" "rooms s' = rooms s" "dm_history s' = dm_history s"
proof -
  show "users s' = users s"
    by (rule evict_preserves[OF assms, where P = "\<lambda>t. users t = users s"])
       (simp_all add: join_room_frame)
  show "rooms s' = rooms s"
    by (rule evict_preserves[OF assms, where P = "\<lambda>t. rooms t = rooms s"])
       (simp_all add: join_room_frame)
  show "dm_history s' = dm_history s"
    by (rule evict_preserves[OF assms, where P = "\<lambda>t. dm_history t = dm_history s"])
       (simp_all add: join_room_frame)
qed

subsection \<open>The two pieces of the authentication\<close>

lemma auth_fail_result: "auth_fail s c m = (None, close_conn (send s c (AuthFail m)) c)"
  by (simp add: auth_fail_def disconnect_def close_conn_def)

lemma auth_check_frame:
  "rooms (snd (auth_check H s c a clk)) = rooms s"
  "dm_history (snd (auth_check H s c a clk)) = dm_history s"
  "clients (snd (auth_check H s c a clk)) = clients s"
  "room_users (snd (auth_check H s c a clk)) = room_users s"
  by (simp_all add: auth_check_def Let_def auth_fail_result split: option.splits)

lemma auth_open_effect:
  "fst (auth_open s c u) = Some u"
  "clients (snd (auth_open s c u)) = AList.update u \<lparr>conn = c, room = ''general''\<rparr> (clients s)"
  "room_users (snd (auth_open s c u)) = room_users s"
  by (simp_all add: auth_open_def join_room_def Let_def AList.update_conv' split: option.splits)

lemma auth_open_frame:
  "rooms (snd (auth_open s c u)) = rooms s" "dm_history (snd (auth_open s c u)) = dm_history s"
  "users (snd (auth_open s c u)) = users s"
  by (simp_all add: auth_open_def join_room_def Let_def split: option.splits)

lemma auth_open_result: "auth_open s c u = (Some u, snd (auth_open s c u))"
  using auth_open_effect(1)[of s c u] by (cases "auth_open s c u") simp

lemma auth_open_session:
  "map_of (clients (snd (auth_open s c u))) u = Some \<lparr>conn = c, room = ''general''\<rparr>"
  by (simp add: auth_open_effect(2) AList.update_conv')

lemma login_check_passes:
  assumes "a_action a = Some ''login''" "lower (strip (get_or (a_username a) [])) = u"
    "2 \<le> length u" "users s u = Some acct" "pw acct = H (get_or (a_password a) [])"
    "u \<notin> fst ` set (clients s)"
  shows "auth_check H s c a clk = (Some u, s)"
  using assms by (simp add: auth_check_def Let_def)

lemma login_check_online:
  assumes "a_action a = Some ''login''"
    "lower (strip (get_or (a_username a) [])) \<in> fst ` set (clients s)"
  shows "fst (auth_check H s c a clk) = None"
  using assms by (simp add: auth_check_def Let_def auth_fail_result split: option.splits)

text \<open>A handler that runs both pieces without interruption is two steps of \<open>running\<close>.\<close>

lemma running_auth:
  assumes "running H waiting serving s" "handle_auth H s c a clk = (Some u, s')"
  shows "running H (waiting - {(c, u)}) (insert (c, u) serving) s'"
proof -
  obtain r s1 where chk: "auth_check H s c a clk = (r, s1)"
    by (cases "auth_check H s c a clk")
  with assms(2) obtain u1 where r: "r = Some u1" and op: "auth_open s1 c u1 = (Some u, s')"
    by (cases r) (auto simp: handle_auth_def)
  from op auth_open_effect(1)[of s1 c u1] have "u1 = u" by simp
  with chk r op have chk': "auth_check H s c a clk = (Some u, s1)"
    and op': "auth_open s1 c u = (Some u, s')" by simp_all
  from running.opened[OF running.passed[OF assms(1) chk'] _ op']
  show ?thesis by simp
qed

subsection \<open>Direct-message threads\<close>

lemma code_point_eq: "(of_char x :: nat) = of_char y \<longleftrightarrow> x = y"
  using inj_of_char[where ?'a = nat] by (simp add: inj_eq)

lemma str_le_total: "str_le a b \<or> str_le b a"
proof (induction a b rule: str_le.induct)
  case (3 x xs y ys)
  then show ?case using code_point_eq[of x y] by (auto simp: not_less le_less)
qed (auto simp: neq_Nil_conv)

lemma str_le_Nil: "str_le a [] \<longleftrightarrow> a = []"
  by (cases a) simp_all

lemma str_le_antisym: "str_le a b \<Longrightarrow> str_le b a \<Longrightarrow> a = b"
  by (induction a b rule: str_le.induct) (auto simp: str_le_Nil split: if_splits)

lemma dm_key_sym: "dm_key a b = dm_key b a"
  using str_le_total[of a b] str_le_antisym[of a b] by (auto simp: dm_key_def)

lemma send_dm_history_result:
  assumes "lower (strip (get_or (p_with q) [])) = b"
  shows "send_dm_history s a c q =
     (Returned, send s c (DmHistory b (last_n 50 (get_or (dm_history s (dm_key a b)) []))))"
  using assms by (simp add: send_dm_history_def Let_def)

lemma handle_dm_stores:
  assumes "lower (strip (get_or (p_to p) [])) = b" "b \<noteq> []" "b \<noteq> a"
    "strip (get_or (p_text p) []) = text" "text \<noteq> []"
  shows "dm_history (snd (handle_dm s a c p clk)) (dm_key a b) =
     Some (let thread = get_or (dm_history s (dm_key a b)) [] @
                 [\<lparr>d_from = a, d_to = b, d_text = text, d_ts = ts clk, d_full_ts = full_ts clk\<rparr>]
           in if length thread > 200 then last_n 200 thread else thread)"
  using assms by (simp add: handle_dm_def Let_def split: option.splits)

subsection \<open>History caps\<close>

lemma append_history_shape:
  assumes "append_history s r e = Some s1"
  obtains data where "map_of (rooms s) r = Some data"
    "s1 = s\<lparr>rooms := AList.update r
        (data\<lparr>history := (if length (history data) + 1 > 500
                            then last_n 500 (history data @ [e]) else history data @ [e])\<rparr>)
        (rooms s)\<rparr>"
  using assms by (auto simp: append_history_def Let_def split: option.splits)

lemma last_n_append_one:
  "(if length (h @ [e]) > n then last_n n (h @ [e]) else h @ [e]) = drop (length h + 1 - n) (h @ [e])"
  by (simp add: last_n_def)

lemma same_histories:
  assumes "rooms s' = rooms s" "dm_history s' = dm_history s"
  shows "capped s' = capped s"
  using assms by (simp add: capped_def)


lemma append_history_capped:
  assumes "append_history s r e = Some s1" "capped s"
  shows "capped s1"
proof -
  from assms(1) obtain data where d: "map_of (rooms s) r = Some data"
    and s1: "s1 = s\<lparr>rooms := AList.update r
        (data\<lparr>history := (if length (history data) + 1 > 500
                            then last_n 500 (history data @ [e]) else history data @ [e])\<rparr>)
        (rooms s)\<rparr>"
    by (rule append_history_shape)
  show ?thesis using assms(2) d unfolding s1 capped_def
    by (auto simp: AList.update_conv' last_n_def)
qed


lemma handle_dm_capped:
  assumes "handle_dm s u c pkt clk = (out, s')" "capped s"
  shows "capped s'"
  using assms
  by (auto simp: handle_dm_def Let_def capped_def last_n_def split: option.splits if_splits)

lemma join_room_capped:
  assumes "join_room s u c r b = (out, s')" "capped s"
  shows "capped s'"
  using assms(2) same_histories[OF join_room_frame(2,3)[OF assms(1)]] by simp

lemma evict_capped:
  assumes "evict s us = (out, s')" "capped s"
  shows "capped s'"
  using assms(2) same_histories[OF evict_frame(2,3)[OF assms(1)]] by simp

lemma disconnect_capped [simp]: "capped (disconnect s uo c) = capped s"
  by (rule same_histories) simp_all

lemma handle_msg_capped:
  assumes "handle_msg s u c pkt clk = (out, s')" "capped s"
  shows "capped s'"
proof -
  have "capped (broadcast_room t r p e) = capped t" for t r p e
    by (rule same_histories) simp_all
  moreover have "capped (send t c' p) = capped t" for t c' p
    by (rule same_histories) simp_all
  ultimately show ?thesis using assms
    by (auto simp: handle_msg_def Let_def split: option.splits if_splits
        dest: append_history_capped)
qed

lemma create_room_capped:
  assumes "create_room s u c pkt = (out, s')" "capped s"
  shows "capped s'"
proof -
  let ?name = "replace_space_hyphen (lower (strip (get_or (p_name pkt) [])))"
  let ?tp = "take 200 (strip (get_or (p_topic pkt) []))"
  let ?s1 = "s\<lparr>rooms := AList.update ?name \<lparr>topic = ?tp, history = [], owner = u\<rparr> (rooms s)\<rparr>"
  show ?thesis
  proof (cases "length ?name < 2 \<or> ?name \<in> fst ` set (rooms s)")
    case True
    with assms show ?thesis
      by (auto simp: create_room_def Let_def capped_def split: if_splits)
  next
    case False
    then have j: "join_room (broadcast_all ?s1 (RoomCreated ?name ?tp u) None) u c ?name False
        = (out, s')"
      using assms(1) by (simp add: create_room_def Let_def)
    have "capped ?s1" using assms(2) by (auto simp: capped_def AList.update_conv' split: if_splits)
    then have "capped (broadcast_all ?s1 (RoomCreated ?name ?tp u) None)"
      by (simp add: capped_def)
    from join_room_capped[OF j this] show ?thesis .
  qed
qed

lemma delete_room_capped:
  assumes "delete_room s u c pkt = (out, s')" "capped s"
  shows "capped s'"
proof -
  let ?name = "lower (strip (get_or (p_name pkt) []))"
  obtain o1 s1 where ev: "evict s (room_users s ?name) = (o1, s1)"
    by (cases "evict s (room_users s ?name)")
  have k1: "capped s1" using evict_capped[OF ev assms(2)] .
  then have "capped (broadcast_all (s1\<lparr>rooms := AList.delete ?name (rooms s1)\<rparr>) p e)" for p e
    by (auto simp: capped_def AList.delete_conv' split: if_splits)
  moreover have "capped (send s c p) = capped s" for p
    by (rule same_histories) simp_all
  ultimately show ?thesis using assms k1 ev
    by (auto simp: delete_room_def Let_def split: option.splits if_splits outcome.splits)
qed

lemma dispatch_capped:
  assumes "dispatch s u c pkt clk = (out, s')" "capped s"
  shows "capped s'"
proof -
  have rest: "\<And>o' t. send_history s u c pkt = (o', t) \<or> send_dm_history s u c pkt = (o', t)
      \<or> whois s u c pkt = (o', t) \<or> set_bio s u c pkt = (o', t) \<Longrightarrow> capped t"
    using assms(2)
    by (auto simp: send_history_def send_dm_history_def whois_def set_bio_def Let_def capped_def
        split: option.splits if_splits)
  have "capped (send s c p) = capped s" for p
    by (rule same_histories) simp_all
  with assms show ?thesis
    by (auto simp: dispatch_def Let_def split: if_splits
        intro: handle_msg_capped create_room_capped delete_room_capped handle_dm_capped rest
          join_room_capped)
qed

lemma handle_pkt_capped:
  assumes "capped s"
  shows "capped (snd (handle_pkt s u c pkt clk))"
proof -
  obtain out s1 where d: "dispatch s u c pkt clk = (out, s1)"
    by (cases "dispatch s u c pkt clk")
  from dispatch_capped[OF d assms] show ?thesis
    by (cases out) (simp_all add: handle_pkt_def d)
qed

subsection \<open>Default rooms\<close>

lemma same_rooms:
  assumes "rooms s' = rooms s"
  shows "defaults_kept s' = defaults_kept s"
  using assms by (simp add: defaults_kept_def)

lemma append_history_defaults:
  assumes "append_history s r e = Some s1" "defaults_kept s"
  shows "defaults_kept s1"
proof -
  from assms(1) obtain data h where d: "map_of (rooms s) r = Some data"
    and s1: "s1 = s\<lparr>rooms := AList.update r (data\<lparr>history := h\<rparr>) (rooms s)\<rparr>"
    by (auto elim: append_history_shape)
  show ?thesis using assms(2) d unfolding s1 defaults_kept_def
    by (auto simp: AList.update_conv')
qed

lemma join_room_defaults:
  assumes "join_room s u c r b = (out, s')" "defaults_kept s"
  shows "defaults_kept s'"
  using assms(2) same_rooms[OF join_room_frame(2)[OF assms(1)]] by simp

lemma evict_defaults:
  assumes "evict s us = (out, s')" "defaults_kept s"
  shows "defaults_kept s'"
  using assms(2) same_rooms[OF evict_frame(2)[OF assms(1)]] by simp

lemma disconnect_defaults [simp]: "defaults_kept (disconnect s uo c) = defaults_kept s"
  by (rule same_rooms) simp

lemma handle_msg_defaults:
  assumes "handle_msg s u c pkt clk = (out, s')" "defaults_kept s"
  shows "defaults_kept s'"
proof -
  have "defaults_kept (broadcast_room t r p e) = defaults_kept t" for t r p e
    by (rule same_rooms) simp
  moreover have "defaults_kept (send t c' p) = defaults_kept t" for t c' p
    by (rule same_rooms) simp
  ultimately show ?thesis using assms
    by (auto simp: handle_msg_def Let_def split: option.splits if_splits
        dest: append_history_defaults)
qed

lemma create_room_defaults:
  assumes "create_room s u c pkt = (out, s')" "defaults_kept s"
  shows "defaults_kept s'"
proof -
  let ?name = "replace_space_hyphen (lower (strip (get_or (p_name pkt) [])))"
  let ?tp = "take 200 (strip (get_or (p_topic pkt) []))"
  let ?s1 = "s\<lparr>rooms := AList.update ?name \<lparr>topic = ?tp, history = [], owner = u\<rparr> (rooms s)\<rparr>"
  show ?thesis
  proof (cases "length ?name < 2 \<or> ?name \<in> fst ` set (rooms s)")
    case True
    with assms show ?thesis
      by (auto simp: create_room_def Let_def defaults_kept_def split: if_splits)
  next
    case False
    then have new: "map_of (rooms s) ?name = None" by (simp add: in_keys_iff)
    have j: "join_room (broadcast_all ?s1 (RoomCreated ?name ?tp u) None) u c ?name False
        = (out, s')"
      using assms(1) False by (simp add: create_room_def Let_def)
    have "defaults_kept ?s1"
      using assms(2) new by (auto simp: defaults_kept_def AList.update_conv')
    then have "defaults_kept (broadcast_all ?s1 (RoomCreated ?name ?tp u) None)"
      by (simp add: defaults_kept_def)
    from join_room_defaults[OF j this] show ?thesis .
  qed
qed



lemma delete_room_defaults:
  assumes "delete_room s u c pkt = (out, s')" "defaults_kept s"
  shows "defaults_kept s'"
proof -
  let ?name = "lower (strip (get_or (p_name pkt) []))"
  show ?thesis
  proof (cases "map_of (rooms s) ?name")
    case None
    with assms show ?thesis by (auto simp: delete_room_def Let_def defaults_kept_def)
  next
    case (Some data)
    show ?thesis
    proof (cases "owner data \<noteq> u \<or> ?name \<in> {''general'', ''random'', ''tech''}")
      case True
      with assms Some show ?thesis
        by (auto simp: delete_room_def Let_def defaults_kept_def split: if_splits)
    next
      case False
      obtain o1 s1 where ev: "evict s (room_users s ?name) = (o1, s1)"
        by (cases "evict s (room_users s ?name)")
      have k1: "defaults_kept s1" using evict_defaults[OF ev assms(2)] .
      have k2: "defaults_kept (broadcast_all (s1\<lparr>rooms := AList.delete ?name (rooms s1)\<rparr>) p e)"
        for p e
        using k1 False by (auto simp: defaults_kept_def AList.delete_conv')
      from assms(1) Some False ev have "s' = s1 \<or>
          s' = broadcast_all (s1\<lparr>rooms := AList.delete ?name (rooms s1)\<rparr>)
                 (System (RoomDeleted ?name u)) None"
        by (cases o1) (auto simp: delete_room_def Let_def split: if_splits)
      with k1 k2 show ?thesis by auto
    qed
  qed
qed

lemma handle_dm_rooms:
  assumes "handle_dm s u c pkt clk = (out, s')"
  shows "rooms s' = rooms s"
  using assms by (auto simp: handle_dm_def Let_def split: option.splits if_splits)

lemma send_history_rooms:
  assumes "send_history s u c pkt = (out, s')"
  shows "rooms s' = rooms s"
  using assms by (auto simp: send_history_def Let_def split: option.splits if_splits)

lemma send_dm_history_rooms:
  assumes "send_dm_history s u c pkt = (out, s')"
  shows "rooms s' = rooms s"
  using assms by (auto simp: send_dm_history_def Let_def)

lemma whois_rooms:
  assumes "whois s u c pkt = (out, s')"
  shows "rooms s' = rooms s"
  using assms by (auto simp: whois_def Let_def split: option.splits)

lemma set_bio_rooms:
  assumes "set_bio s u c pkt = (out, s')"
  shows "rooms s' = rooms s"
  using assms by (auto simp: set_bio_def Let_def split: option.splits)


lemma dispatch_defaults:
  assumes "dispatch s u c pkt clk = (out, s')" "defaults_kept s"
  shows "defaults_kept s'"
proof -
  have keep: "defaults_kept t" if "rooms t = rooms s" for t
    using that assms(2) by (simp add: defaults_kept_def)
  from assms(1) consider
      (msg) "handle_msg s u c pkt clk = (out, s')"
    | (join) r where "join_room s u c r True = (out, s')"
    | (create) "create_room s u c pkt = (out, s')"
    | (delete) "delete_room s u c pkt = (out, s')"
    | (plain) "rooms s' = rooms s"
    by (auto simp: dispatch_def Let_def split: if_splits
        dest: handle_dm_rooms send_history_rooms send_dm_history_rooms whois_rooms set_bio_rooms)
  then show ?thesis
  proof cases
    case msg
    then show ?thesis using assms(2) by (rule handle_msg_defaults)
  next
    case (join r)
    then show ?thesis using assms(2) by (rule join_room_defaults)
  next
    case create
    then show ?thesis using assms(2) by (rule create_room_defaults)
  next
    case delete
    then show ?thesis using assms(2) by (rule delete_room_defaults)
  next
    case plain
    then show ?thesis by (rule keep)
  qed
qed

lemma handle_pkt_defaults:
  assumes "defaults_kept s"
  shows "defaults_kept (snd (handle_pkt s u c pkt clk))"
proof -
  obtain out s1 where d: "dispatch s u c pkt clk = (out, s1)"
    by (cases "dispatch s u c pkt clk")
  from dispatch_defaults[OF d assms] show ?thesis
    by (cases out) (simp_all add: handle_pkt_def d)
qed


subsection \<open>Invariants of the reachable states\<close>

lemma running_invariants:
  assumes "running H waiting serving s"
  shows "capped s \<and> defaults_kept s"
  using assms
proof (induction rule: running.induct)
  case start
  show ?case by (simp add: capped_def defaults_kept_def init_state_def)
next
  case (passed waiting serving s c a clk u s')
  from passed.hyps(2) auth_check_frame(1,2)[of H s c a clk]
  have "rooms s' = rooms s" "dm_history s' = dm_history s" by simp_all
  with passed.IH show ?case by (simp add: capped_def defaults_kept_def)
next
  case (refused waiting serving s c a clk s')
  from refused.hyps(2) auth_check_frame(1,2)[of H s c a clk]
  have "rooms s' = rooms s" "dm_history s' = dm_history s" by simp_all
  with refused.IH show ?case by (simp add: capped_def defaults_kept_def)
next
  case (opened waiting serving s c u v s')
  from opened.hyps(3) auth_open_frame(1,2)[of s c u]
  have "rooms s' = rooms s" "dm_history s' = dm_history s" by simp_all
  with opened.IH show ?case by (simp add: capped_def defaults_kept_def)
next
  case (aborted waiting serving s c u s')
  from aborted.hyps(3) auth_open_frame(1,2)[of s c u]
  have "rooms s' = rooms s" "dm_history s' = dm_history s" by simp_all
  with aborted.IH show ?case by (simp add: capped_def defaults_kept_def)
next
  case (served waiting serving s c u pkt clk s')
  from served.hyps(3) handle_pkt_capped[of s u c pkt clk] handle_pkt_defaults[of s u c pkt clk]
    served.IH
  show ?case by simp
next
  case (raised waiting serving s c u pkt clk s')
  from raised.hyps(3) handle_pkt_capped[of s u c pkt clk] handle_pkt_defaults[of s u c pkt clk]
    raised.IH
  show ?case by simp
next
  case (gone waiting serving s c u)
  then show ?case by simp
next
  case (lost waiting serving s c)
  then show ?case by simp
qed


lemma reachable_defaults_kept:
  assumes "reachable H s"
  shows "defaults_kept s"
proof -
  from assms obtain waiting serving where "running H waiting serving s"
    unfolding reachable_def by blast
  from running_invariants[OF this] show ?thesis by simp
qed

subsection \<open>The concrete run, evaluated\<close>

lemma norm_alice: "lower (strip ''alice'') = ''alice''"
  by code_simp

lemma strip_hello: "strip ''hello'' = ''hello''"
  by code_simp

lemma strip_again: "strip ''again'' = ''again''"
  by code_simp

lemma strip_blank: "strip ''   '' = []"
  by code_simp

lemma norm_general: "lower (strip ''general'') = ''general''"
  by code_simp

lemma s_alice_eq:
  "s_alice = \<lparr>
     users = [''alice'' \<mapsto> \<lparr>pw = ''pw1'', joined = ''2024-01-01 12:00:00'', bio = []\<rparr>],
     rooms = rooms init_state,
     dm_history = Map.empty,
     clients = [(''alice'', \<lparr>conn = 4, room = ''general''\<rparr>)],
     room_users = (\<lambda>r. []),
     sent = [(4, AuthOk ''alice'' (room_list_payload init_state) [''alice'']),
             (4, System (AlreadyInRoom ''general''))],
     closed = {}\<rparr>"
  by (simp add: s_alice_def handle_auth_def auth_check_def auth_pkt_def auth_open_def join_room_def send_def
      broadcast_all_def room_list_payload_def online_list_def get_or_def norm_alice
      init_state_def clk0_def no_hash_def Let_def)

lemma auth_alice_fst:
  "fst (handle_auth no_hash init_state 4 (auth_pkt ''register'' ''alice'' ''pw1'') clk0) = Some ''alice''"
  by (simp add: handle_auth_def auth_check_def auth_pkt_def auth_open_def join_room_def send_def
      broadcast_all_def room_list_payload_def online_list_def get_or_def norm_alice
      init_state_def clk0_def no_hash_def Let_def)

lemma s_hello_eq:
  "s_hello = s_alice\<lparr>rooms :=
      [(''general'', \<lparr>topic = ''General chat for everyone'',
          history = [\<lparr>e_from = ''alice'', e_text = ''hello'', e_ts = ''12:00''\<rparr>],
          owner = ''system''\<rparr>),
       (''random'', \<lparr>topic = ''Random topics'', history = [], owner = ''system''\<rparr>),
       (''tech'', \<lparr>topic = ''Technology discussions'', history = [], owner = ''system''\<rparr>)]\<rparr>"
  by (simp add: s_hello_def s_alice_eq handle_pkt_def dispatch_def msg_pkt_def empty_pkt_def
      handle_msg_def append_history_def broadcast_room_def get_or_def strip_hello
      init_state_def clk0_def Let_def)

lemma hello_fst: "fst (handle_pkt s_alice ''alice'' 4 (msg_pkt ''hello'') clk0) = True"
  by (simp add: s_alice_eq handle_pkt_def dispatch_def msg_pkt_def empty_pkt_def
      handle_msg_def append_history_def broadcast_room_def get_or_def strip_hello
      init_state_def clk0_def Let_def)

lemma s_two_eq:
  "s_two = s_alice\<lparr>rooms :=
      [(''general'', \<lparr>topic = ''General chat for everyone'',
          history = [\<lparr>e_from = ''alice'', e_text = ''hello'', e_ts = ''12:00''\<rparr>,
                     \<lparr>e_from = ''alice'', e_text = ''again'', e_ts = ''12:00''\<rparr>],
          owner = ''system''\<rparr>),
       (''random'', \<lparr>topic = ''Random topics'', history = [], owner = ''system''\<rparr>),
       (''tech'', \<lparr>topic = ''Technology discussions'', history = [], owner = ''system''\<rparr>)]\<rparr>"
  by (simp add: s_two_def s_hello_eq s_alice_eq handle_pkt_def dispatch_def msg_pkt_def empty_pkt_def
      handle_msg_def append_history_def broadcast_room_def get_or_def strip_again
      init_state_def clk0_def Let_def)


lemma alice_online: "map_of (clients s_alice) ''alice'' = Some \<lparr>conn = 4, room = ''general''\<rparr>"
  by (simp add: s_alice_eq)

lemma alice_online_hello: "map_of (clients s_hello) ''alice'' = Some \<lparr>conn = 4, room = ''general''\<rparr>"
  by (simp add: s_hello_eq s_alice_eq)

lemma again_fst: "fst (handle_pkt s_hello ''alice'' 4 (msg_pkt ''again'') clk0) = True"
  by (simp add: s_hello_eq s_alice_eq handle_pkt_def dispatch_def msg_pkt_def empty_pkt_def
      handle_msg_def append_history_def broadcast_room_def get_or_def strip_again
      init_state_def clk0_def Let_def)

lemma running_s_alice: "running no_hash {} {(4, ''alice'')} s_alice"
proof -
  have "handle_auth no_hash init_state 4 (auth_pkt ''register'' ''alice'' ''pw1'') clk0
      = (Some ''alice'', s_alice)"
    by (simp add: prod_eq_iff auth_alice_fst s_alice_def)
  from running_auth[OF running.start this] show ?thesis by simp
qed

lemma running_s_hello: "running no_hash {} {(4, ''alice'')} s_hello"
proof -
  have "handle_pkt s_alice ''alice'' 4 (msg_pkt ''hello'') clk0 = (True, s_hello)"
    by (simp add: prod_eq_iff hello_fst s_hello_def)
  from running.served[OF running_s_alice _ this] show ?thesis by simp
qed

lemma running_s_two: "running no_hash {} {(4, ''alice'')} s_two"
proof -
  have "handle_pkt s_hello ''alice'' 4 (msg_pkt ''again'') clk0 = (True, s_two)"
    by (simp add: prod_eq_iff again_fst s_two_def)
  from running.served[OF running_s_hello _ this] show ?thesis by simp
qed

lemma reachable_s_alice: "reachable no_hash s_alice"
  unfolding reachable_def using running_s_alice by blast

lemma reachable_s_hello: "reachable no_hash s_hello"
  unfolding reachable_def using running_s_hello by blast

lemma reachable_s_two: "reachable no_hash s_two"
  unfolding reachable_def using running_s_two by blast

text \<open>
  C1. After every successful authentication the user is joined to the default room: the
  user is in the membership set of \<open>general\<close> and receives a \<open>joined\<close> record, not a notice.
  The code does not do this. \<^verbatim>\<open>handle_client\<close> stores the session with the room
  \<open>general\<close> and then calls \<^verbatim>\<open>_join_room\<close>, which finds the user already there, writes
  the notice "You are already in #general." and returns before it touches the membership
  set. On a fresh server, after \<open>alice\<close> has registered:
\<close>

theorem auto_join_skipped:
  "fst (handle_auth no_hash init_state 4 (auth_pkt ''register'' ''alice'' ''pw1'') clk0) = Some ''alice''
   \<and> map_of (clients s_alice) ''alice'' = Some \<lparr>conn = 4, room = ''general''\<rparr>
   \<and> room_users s_alice ''general'' = []
   \<and> sent s_alice = [(4, AuthOk ''alice'' (room_list_payload init_state) [''alice'']),
                     (4, System (AlreadyInRoom ''general''))]"
  by (simp add: auth_alice_fst s_alice_eq)

text \<open>
  C2. In every reachable state the room of an online user's session and the membership
  sets agree. They do not after an authentication: \<open>alice\<close> is online, her session says
  \<open>general\<close>, and she is in no membership set, because the automatic join returned
  early.
\<close>

theorem session_without_membership:
  "reachable no_hash s_alice
   \<and> map_of (clients s_alice) ''alice'' = Some \<lparr>conn = 4, room = ''general''\<rparr>
   \<and> ''alice'' \<notin> set (room_users s_alice ''general'')"
  using reachable_s_alice by (simp add: s_alice_eq)

text \<open>
  C3. A room message is appended to the history of the sender's room and delivered to every
  member of the room, the sender included. When \<open>alice\<close>, just registered, sends
  \<open>hello\<close>, the message enters the history of \<open>general\<close> and nothing is written to any
  connection: the membership set of \<open>general\<close> is empty, because the automatic join
  returned early, so the sender gets no echo.
\<close>

theorem no_echo_after_login:
  "handle_pkt s_alice ''alice'' 4 (msg_pkt ''hello'') clk0 = (True, s_hello)
   \<and> map_option history (map_of (rooms s_hello) ''general'') =
       Some [\<lparr>e_from = ''alice'', e_text = ''hello'', e_ts = ''12:00''\<rparr>]
   \<and> sent s_hello = sent s_alice"
proof (intro conjI)
  show "handle_pkt s_alice ''alice'' 4 (msg_pkt ''hello'') clk0 = (True, s_hello)"
    by (simp add: prod_eq_iff hello_fst s_hello_def)
qed (simp_all add: s_hello_eq)

subsection \<open>Records of an unknown kind\<close>

lemma dispatch_unknown:
  assumes "p_type pkt \<notin> set (map Some known_types)"
  shows "dispatch s u c pkt clk = (Returned, s)"
  using assms by (auto simp: dispatch_def known_types_def)

text \<open>
  C7. A record whose type tag is not a known kind is a protocol error and ends the
  connection. The loop of \<^verbatim>\<open>handle_client\<close> is a chain of \<^verbatim>\<open>if\<close>/\<^verbatim>\<open>elif\<close> without
  a final \<^verbatim>\<open>else\<close>: a record of any other kind, the client's own \<^verbatim>\<open>quit\<close> among
  them, is skipped. As amended: such a record changes nothing, nothing is written, and the
  handler stays in its loop.
\<close>

theorem unknown_type_ignored:
  assumes "p_type pkt \<notin> set (map Some known_types)"
  shows "handle_pkt s u c pkt clk = (True, s)"
  by (simp add: handle_pkt_def dispatch_unknown[OF assms])

theorem unknown_type_ignored_witness:
  "p_type (empty_pkt ''quit'') \<notin> set (map Some known_types)
   \<and> handle_pkt s_alice ''alice'' 4 (empty_pkt ''quit'') clk0 = (True, s_alice)"
proof -
  have h: "p_type (empty_pkt ''quit'') \<notin> set (map Some known_types)"
    by (simp add: empty_pkt_def known_types_def)
  from h unknown_type_ignored[OF h] show ?thesis by simp
qed

theorem unknown_type_counterexample:
  "p_type (empty_pkt ''bogus'') \<notin> set (map Some known_types)
   \<and> fst (handle_pkt s_alice ''alice'' 4 (empty_pkt ''bogus'') clk0)
   \<and> 4 \<notin> closed (snd (handle_pkt s_alice ''alice'' 4 (empty_pkt ''bogus'') clk0))
   \<and> map_of (clients (snd (handle_pkt s_alice ''alice'' 4 (empty_pkt ''bogus'') clk0))) ''alice''
       = Some \<lparr>conn = 4, room = ''general''\<rparr>"
proof -
  have h: "p_type (empty_pkt ''bogus'') \<notin> set (map Some known_types)"
    by (simp add: empty_pkt_def known_types_def)
  have "handle_pkt s_alice ''alice'' 4 (empty_pkt ''bogus'') clk0 = (True, s_alice)"
    by (simp add: handle_pkt_def dispatch_unknown[OF h])
  with h show ?thesis by (simp add: s_alice_eq)
qed

subsection \<open>Rejected room messages\<close>

lemma strip_unchanged:
  assumes "xs \<noteq> []" "\<not> is_space (hd xs)" "\<not> is_space (last xs)"
  shows "strip xs = xs"
proof -
  have "dropWhile is_space xs = xs" using assms(2) by (simp add: dropWhile_eq_self_iff)
  moreover have "dropWhile is_space (rev xs) = rev xs"
    using assms(1,3) by (simp add: dropWhile_eq_self_iff hd_rev)
  ultimately show ?thesis by (simp add: strip_def)
qed

lemma strip_long: "strip (replicate 1001 CHR ''a'') = replicate 1001 CHR ''a''"
  by (rule strip_unchanged) (simp_all add: is_space_def)

lemma handle_msg_empty:
  assumes "map_of (clients s) u = Some info" "strip (get_or (p_text pkt) []) = []"
  shows "handle_msg s u c pkt clk = (Returned, s)"
  using assms by (simp add: handle_msg_def)

lemma handle_msg_too_long:
  assumes "map_of (clients s) u = Some info" "length (strip (get_or (p_text pkt) [])) > 1000"
  shows "handle_msg s u c pkt clk = (Returned, send s c (System TooLong))"
  using assms by (auto simp: handle_msg_def Let_def)

lemma dispatch_msg:
  "p_type pkt = Some ''msg'' \<Longrightarrow> dispatch s u c pkt clk = handle_msg s u c pkt clk"
  by (simp add: dispatch_def)

text \<open>
  C9. A room message whose text is empty after trimming, or longer than 1000 characters,
  is rejected with a notice to the sender, and nothing else changes. The empty text gets no
  notice: \<^verbatim>\<open>_handle_msg\<close> returns at once. As amended: for an online sender, a text that
  is empty after trimming is dropped and the state stays as it is, nothing written; a
  trimmed text of more than 1000 characters is answered with the length notice to the
  sender and changes nothing else; in both cases the handler stays in its loop.
\<close>

theorem bad_text_rejected:
  assumes "map_of (clients s) u = Some info" "p_type pkt = Some ''msg''"
  shows "(strip (get_or (p_text pkt) []) = [] \<longrightarrow> handle_pkt s u c pkt clk = (True, s))
       \<and> (length (strip (get_or (p_text pkt) [])) > 1000 \<longrightarrow>
            handle_pkt s u c pkt clk = (True, send s c (System TooLong)))"
  using assms
  by (simp add: handle_pkt_def dispatch_msg handle_msg_empty handle_msg_too_long)

theorem bad_text_rejected_witness:
  "map_of (clients s_alice) ''alice'' = Some \<lparr>conn = 4, room = ''general''\<rparr>
   \<and> p_type (msg_pkt ''   '') = Some ''msg''
   \<and> strip (get_or (p_text (msg_pkt ''   '')) []) = []
   \<and> handle_pkt s_alice ''alice'' 4 (msg_pkt ''   '') clk0 = (True, s_alice)
   \<and> p_type (msg_pkt (replicate 1001 CHR ''a'')) = Some ''msg''
   \<and> length (strip (get_or (p_text (msg_pkt (replicate 1001 CHR ''a''))) [])) > 1000
   \<and> handle_pkt s_alice ''alice'' 4 (msg_pkt (replicate 1001 CHR ''a'')) clk0
       = (True, send s_alice 4 (System TooLong))"
proof -
  have t1: "p_type (msg_pkt ''   '') = Some ''msg''"
    and t2: "p_type (msg_pkt (replicate 1001 CHR ''a'')) = Some ''msg''"
    by (simp_all add: msg_pkt_def empty_pkt_def)
  have e: "strip (get_or (p_text (msg_pkt ''   '')) []) = []"
    by (simp add: msg_pkt_def empty_pkt_def get_or_def strip_blank)
  have l: "length (strip (get_or (p_text (msg_pkt (replicate 1001 CHR ''a''))) [])) > 1000"
    by (simp add: msg_pkt_def empty_pkt_def get_or_def strip_long)
  from bad_text_rejected[OF alice_online t1, of 4 clk0] bad_text_rejected[OF alice_online t2, of 4 clk0]
    alice_online t1 t2 e l
  show ?thesis by simp
qed

theorem empty_text_counterexample:
  "strip (get_or (p_text (msg_pkt ''   '')) []) = []
   \<and> handle_pkt s_alice ''alice'' 4 (msg_pkt ''   '') clk0 = (True, s_alice)
   \<and> sent (snd (handle_pkt s_alice ''alice'' 4 (msg_pkt ''   '') clk0)) = sent s_alice"
proof -
  have e: "strip (get_or (p_text (msg_pkt ''   '')) []) = []"
    by (simp add: msg_pkt_def empty_pkt_def get_or_def strip_blank)
  have "handle_pkt s_alice ''alice'' 4 (msg_pkt ''   '') clk0 = (True, s_alice)"
    using handle_msg_empty[OF alice_online e]
    by (simp add: handle_pkt_def dispatch_msg msg_pkt_def empty_pkt_def)
  with e show ?thesis by simp
qed

subsection \<open>Deleting a default room\<close>

lemma delete_default:
  assumes "defaults_kept s"
    "lower (strip (get_or (p_name pkt) [])) \<in> {''general'', ''random'', ''tech''}"
  shows "delete_room s u c pkt =
     (Returned, send s c (System (if u = ''system'' then Protected else NotOwner)))"
proof -
  let ?name = "lower (strip (get_or (p_name pkt) []))"
  from assms obtain data where "map_of (rooms s) ?name = Some data" "owner data = ''system''"
    unfolding defaults_kept_def by blast
  with assms(2) show ?thesis by (auto simp: delete_room_def Let_def)
qed

text \<open>
  C6. A request to delete one of the three default rooms fails with "Cannot delete default
  rooms.", whoever asks. \<^verbatim>\<open>_delete_room\<close> checks the owner before it checks the protected
  names, so only the user named \<open>system\<close>, the recorded owner, gets that notice; everybody
  else gets "Only the owner can delete a room.". As amended: in every reachable state the
  default rooms exist, and a request to delete one of them only writes one notice to the
  requester, the protected-room notice when the requester is \<open>system\<close> and the not-owner
  notice otherwise; the room stays.
\<close>

theorem default_room_kept:
  assumes "reachable H s"
    "lower (strip (get_or (p_name pkt) [])) \<in> {''general'', ''random'', ''tech''}"
  shows "map_of (rooms s) (lower (strip (get_or (p_name pkt) []))) \<noteq> None
       \<and> delete_room s u c pkt =
           (Returned, send s c (System (if u = ''system'' then Protected else NotOwner)))
       \<and> rooms (snd (delete_room s u c pkt)) = rooms s"
proof -
  have d: "defaults_kept s" using assms(1) by (rule reachable_defaults_kept)
  have "map_of (rooms s) (lower (strip (get_or (p_name pkt) []))) \<noteq> None"
    using d assms(2) unfolding defaults_kept_def by fastforce
  then show ?thesis by (simp add: delete_default[OF d assms(2)])
qed

theorem default_room_kept_witness:
  "reachable no_hash s_alice
   \<and> lower (strip (get_or (p_name (delete_pkt ''general'')) [])) \<in> {''general'', ''random'', ''tech''}
   \<and> map_of (rooms s_alice) ''general'' \<noteq> None
   \<and> delete_room s_alice ''system'' 4 (delete_pkt ''general'')
       = (Returned, send s_alice 4 (System Protected))
   \<and> delete_room s_alice ''alice'' 4 (delete_pkt ''general'')
       = (Returned, send s_alice 4 (System NotOwner))"
proof -
  have n: "lower (strip (get_or (p_name (delete_pkt ''general'')) [])) = ''general''"
    by (simp add: delete_pkt_def empty_pkt_def get_or_def norm_general)
  then have h: "lower (strip (get_or (p_name (delete_pkt ''general'')) []))
      \<in> {''general'', ''random'', ''tech''}" by simp
  from default_room_kept[OF reachable_s_alice h, of "''system''" 4]
    default_room_kept[OF reachable_s_alice h, of "''alice''" 4] reachable_s_alice n
  show ?thesis by simp
qed

theorem delete_default_counterexample:
  "delete_room s_alice ''alice'' 4 (delete_pkt ''general'')
     = (Returned, send s_alice 4 (System NotOwner))
   \<and> NotOwner \<noteq> Protected
   \<and> ''alice'' \<noteq> ''system''"
proof -
  have n: "lower (strip (get_or (p_name (delete_pkt ''general'')) [])) = ''general''"
    by (simp add: delete_pkt_def empty_pkt_def get_or_def norm_general)
  have "delete_room s_alice ''alice'' 4 (delete_pkt ''general'')
     = (Returned, send s_alice 4 (System (if ''alice'' = ''system'' then Protected else NotOwner)))"
    by (rule delete_default[OF reachable_defaults_kept[OF reachable_s_alice]]) (simp add: n)
  then show ?thesis by simp
qed

subsection \<open>Room history requests\<close>

lemma send_history_result:
  assumes "(if get_or (p_room pkt) [] \<noteq> [] then p_room pkt
            else map_option room (map_of (clients s) u)) = Some r"
    "map_of (rooms s) r = Some data"
    "py_int (get_or (p_limit pkt) (LInt 50)) = Some n"
  shows "send_history s u c pkt =
     (Returned, send s c (History r (slice_from_neg (min n 200) (history data))))"
  using assms by (simp add: send_history_def Let_def)

text \<open>
  C10. Only a positive limit of a room-history request is clamped to 200; for the limit 0
  or a negative limit the whole stored history is returned. For a negative limit \<open>-k\<close>
  the slice \<^verbatim>\<open>history[-limit:]\<close> is \<^verbatim>\<open>history[k:]\<close>, which leaves out the \<open>k\<close> oldest
  messages. As amended: for a request that names an existing room (or none, meaning the
  current room) with the integer limit \<open>n\<close>, the answer holds the last \<open>min n 200\<close>
  messages when \<open>n\<close> is positive, the whole stored history when \<open>n\<close> is 0, and the stored
  history without its \<open>k\<close> oldest messages when \<open>n = -k\<close> is negative.
\<close>

theorem history_limit:
  assumes "(if get_or (p_room pkt) [] \<noteq> [] then p_room pkt
            else map_option room (map_of (clients s) u)) = Some r"
    "map_of (rooms s) r = Some data"
    "py_int (get_or (p_limit pkt) (LInt 50)) = Some n"
  shows "send_history s u c pkt =
     (Returned, send s c (History r
        (if 0 < n then last_n (nat (min n 200)) (history data)
         else if n = 0 then history data
         else drop (nat (- n)) (history data))))"
  by (simp add: send_history_result[OF assms] slice_from_neg_def)

lemma two_history:
  "map_of (rooms s_two) ''general'' =
     Some \<lparr>topic = ''General chat for everyone'',
           history = [\<lparr>e_from = ''alice'', e_text = ''hello'', e_ts = ''12:00''\<rparr>,
                      \<lparr>e_from = ''alice'', e_text = ''again'', e_ts = ''12:00''\<rparr>],
           owner = ''system''\<rparr>"
  by (simp add: s_two_eq)

lemma two_room:
  "(if get_or (p_room (history_pkt v)) [] \<noteq> [] then p_room (history_pkt v)
    else map_option room (map_of (clients s_two) ''alice'')) = Some ''general''"
  by (simp add: history_pkt_def empty_pkt_def get_or_def s_two_eq s_alice_eq)

lemma int_of_zero_string: "py_int (get_or (p_limit (history_pkt (LStr ''0''))) (LInt 50)) = Some 0"
  by (simp add: history_pkt_def empty_pkt_def get_or_def py_int_def) code_simp

theorem history_limit_witness:
  "(if get_or (p_room (history_pkt (LStr ''0''))) [] \<noteq> [] then p_room (history_pkt (LStr ''0''))
    else map_option room (map_of (clients s_two) ''alice'')) = Some ''general''
   \<and> py_int (get_or (p_limit (history_pkt (LStr ''0''))) (LInt 50)) = Some 0
   \<and> send_history s_two ''alice'' 4 (history_pkt (LStr ''0''))
       = (Returned, send s_two 4 (History ''general''
            [\<lparr>e_from = ''alice'', e_text = ''hello'', e_ts = ''12:00''\<rparr>,
             \<lparr>e_from = ''alice'', e_text = ''again'', e_ts = ''12:00''\<rparr>]))"
  using history_limit[OF two_room two_history int_of_zero_string, of 4] two_room[of "LStr ''0''"]
    int_of_zero_string
  by simp

theorem negative_limit_counterexample:
  "send_history s_two ''alice'' 4 (history_pkt (LInt (- 1)))
     = (Returned, send s_two 4 (History ''general''
          [\<lparr>e_from = ''alice'', e_text = ''again'', e_ts = ''12:00''\<rparr>]))
   \<and> map_option history (map_of (rooms s_two) ''general'') =
       Some [\<lparr>e_from = ''alice'', e_text = ''hello'', e_ts = ''12:00''\<rparr>,
             \<lparr>e_from = ''alice'', e_text = ''again'', e_ts = ''12:00''\<rparr>]"
proof -
  have "py_int (get_or (p_limit (history_pkt (LInt (- 1)))) (LInt 50)) = Some (- 1)"
    by (simp add: history_pkt_def empty_pkt_def get_or_def py_int_def)
  from send_history_result[OF two_room two_history this, of 4]
  show ?thesis by (simp add: slice_from_neg_def two_history)
qed


text \<open>
  A limit that \<^verbatim>\<open>int\<close> refuses raises \<^verbatim>\<open>ValueError\<close> in \<^verbatim>\<open>_send_history\<close>: no history
  is sent and the handler leaves its loop. U+001F before a digit is such a limit, although
  \<^verbatim>\<open>str.strip\<close> would remove it.
\<close>

lemma int_refuses_unit_separator: "py_int (LStr [CHR 0x1F, CHR ''5'']) = None"
  by (simp add: py_int_def) code_simp

lemma send_history_bad_limit:
  assumes "(if get_or (p_room pkt) [] \<noteq> [] then p_room pkt
            else map_option room (map_of (clients s) u)) = Some r"
    "py_int (get_or (p_limit pkt) (LInt 50)) = None"
  shows "send_history s u c pkt = (Raised ValueError, s)"
    "p_type pkt = Some ''history'' \<Longrightarrow>
       handle_pkt s u c pkt clk = (False, disconnect s (Some u) c)"
  using assms by (simp_all add: send_history_def handle_pkt_def dispatch_def Let_def)

text \<open>
  The key does not depend on the order of the two names: \<open>A\<close> asking for the history
  with \<open>B\<close> and \<open>B\<close> asking for the history with \<open>A\<close> read the same thread, and a
  message that \<open>A\<close> sends to \<open>B\<close> is stored in that thread. \<open>A\<close> and \<open>B\<close> are user
  names as the authentication makes them, trimmed and in lower case.
\<close>

lemma dm_thread_symmetric:
  assumes "lower (strip A) = A" "lower (strip B) = B" "A \<noteq> B" "B \<noteq> []"
    and "p_with qa = Some B" "p_with qb = Some A"
    and "p_to p = Some B" "strip (get_or (p_text p) []) \<noteq> []"
  shows "dm_key A B = dm_key B A
       \<and> send_dm_history t A ca qa =
           (Returned, send t ca (DmHistory B (last_n 50 (get_or (dm_history t (dm_key A B)) []))))
       \<and> send_dm_history t B cb qb =
           (Returned, send t cb (DmHistory A (last_n 50 (get_or (dm_history t (dm_key A B)) []))))
       \<and> dm_history (snd (handle_dm s A ca p clk)) (dm_key B A) =
           Some (let thread = get_or (dm_history s (dm_key B A)) [] @
                       [\<lparr>d_from = A, d_to = B, d_text = strip (get_or (p_text p) []),
                         d_ts = ts clk, d_full_ts = full_ts clk\<rparr>]
                 in if length thread > 200 then last_n 200 thread else thread)"
proof (intro conjI)
  show "dm_key A B = dm_key B A" by (rule dm_key_sym)
  show "send_dm_history t A ca qa =
      (Returned, send t ca (DmHistory B (last_n 50 (get_or (dm_history t (dm_key A B)) []))))"
    by (rule send_dm_history_result) (simp add: assms get_or_def)
  show "send_dm_history t B cb qb =
      (Returned, send t cb (DmHistory A (last_n 50 (get_or (dm_history t (dm_key A B)) []))))"
    unfolding dm_key_sym[of A B]
    by (rule send_dm_history_result) (simp add: assms get_or_def)
  have "lower (strip (get_or (p_to p) [])) = B" by (simp add: assms get_or_def)
  from handle_dm_stores[OF this assms(4) assms(3)[symmetric] refl assms(8)]
  show "dm_history (snd (handle_dm s A ca p clk)) (dm_key B A) =
      Some (let thread = get_or (dm_history s (dm_key B A)) [] @
                  [\<lparr>d_from = A, d_to = B, d_text = strip (get_or (p_text p) []),
                    d_ts = ts clk, d_full_ts = full_ts clk\<rparr>]
            in if length thread > 200 then last_n 200 thread else thread)"
    by (simp add: dm_key_sym[of B A])
qed




lemma get_or_Some: "get_or (Some x) d = x"
  by (simp add: get_or_def)

lemma get_or_None: "get_or None d = d"
  by (simp add: get_or_def)

subsection \<open>Two pairs of names with one key\<close>

lemma norm_eve: "lower (strip ''eve'') = ''eve''"
  by code_simp

lemma norm_bob_eve: "lower (strip ''bob:eve'') = ''bob:eve''"
  by code_simp

lemma norm_alice_bob: "lower (strip ''alice:bob'') = ''alice:bob''"
  by code_simp

lemma strip_secret: "strip ''secret'' = ''secret''"
  by code_simp

lemma key_alice_bob_eve:
  "dm_key ''alice'' ''bob:eve'' = ''alice:bob:eve''"
  "dm_key ''eve'' ''alice:bob'' = ''alice:bob:eve''"
  by (simp_all add: dm_key_def)

lemma auth_eve:
  "handle_auth no_hash s_alice 5 (auth_pkt ''register'' ''eve'' ''pw2'') clk0 = (Some ''eve'', s_eve)"
proof -
  have "fst (auth_check no_hash s_alice 5 (auth_pkt ''register'' ''eve'' ''pw2'') clk0) = Some ''eve''"
    by (simp add: auth_check_def auth_pkt_def get_or_def norm_eve s_alice_eq Let_def)
  then have "fst (handle_auth no_hash s_alice 5 (auth_pkt ''register'' ''eve'' ''pw2'') clk0)
      = Some ''eve''"
    by (cases "auth_check no_hash s_alice 5 (auth_pkt ''register'' ''eve'' ''pw2'') clk0")
       (simp add: handle_auth_def auth_open_effect(1))
  then show ?thesis by (simp add: prod_eq_iff s_eve_def)
qed

lemma s_eve_fields:
  "map_of (clients s_eve) ''eve'' = Some \<lparr>conn = 5, room = ''general''\<rparr>"
  "map_of (clients s_eve) ''alice'' = Some \<lparr>conn = 4, room = ''general''\<rparr>"
  "dm_history s_eve = Map.empty"
proof -
  obtain s1 where chk: "auth_check no_hash s_alice 5 (auth_pkt ''register'' ''eve'' ''pw2'') clk0
      = (Some ''eve'', s1)"
    by (simp add: auth_check_def auth_pkt_def get_or_def norm_eve s_alice_eq Let_def)
  then have s1: "clients s1 = clients s_alice" "dm_history s1 = dm_history s_alice"
    using auth_check_frame(2,3)[of no_hash s_alice 5 "auth_pkt ''register'' ''eve'' ''pw2''" clk0]
    by simp_all
  have eve: "s_eve = snd (auth_open s1 5 ''eve'')"
    by (simp add: s_eve_def handle_auth_def chk)
  show "map_of (clients s_eve) ''eve'' = Some \<lparr>conn = 5, room = ''general''\<rparr>"
    by (simp add: eve auth_open_session)
  show "map_of (clients s_eve) ''alice'' = Some \<lparr>conn = 4, room = ''general''\<rparr>"
    by (simp add: eve auth_open_effect(2) AList.update_conv' s1 alice_online)
  show "dm_history s_eve = Map.empty"
    by (simp add: eve auth_open_frame(2) s1 s_alice_eq)
qed

lemma dm_secret:
  "handle_pkt s_eve ''alice'' 4 (dm_pkt ''bob:eve'' ''secret'') clk0 = (True, s_secret)"
  "clients s_secret = clients s_eve"
  "dm_history s_secret ''alice:bob:eve'' =
     Some [\<lparr>d_from = ''alice'', d_to = ''bob:eve'', d_text = ''secret'',
            d_ts = ''12:00'', d_full_ts = ''2024-01-01 12:00:00''\<rparr>]"
proof -
  have t: "p_type (dm_pkt ''bob:eve'' ''secret'') = Some ''dm''"
    "lower (strip (get_or (p_to (dm_pkt ''bob:eve'' ''secret'')) [])) = ''bob:eve''"
    "strip (get_or (p_text (dm_pkt ''bob:eve'' ''secret'')) []) = ''secret''"
    by (simp_all add: dm_pkt_def empty_pkt_def get_or_def norm_bob_eve strip_secret)
  have d: "dispatch s_eve ''alice'' 4 (dm_pkt ''bob:eve'' ''secret'') clk0
      = handle_dm s_eve ''alice'' 4 (dm_pkt ''bob:eve'' ''secret'') clk0"
    by (simp add: dispatch_def t(1))
  have r: "fst (handle_dm s_eve ''alice'' 4 (dm_pkt ''bob:eve'' ''secret'') clk0) = Returned"
    by (simp add: handle_dm_def t(2,3) Let_def split: option.splits)
  then have h: "handle_pkt s_eve ''alice'' 4 (dm_pkt ''bob:eve'' ''secret'') clk0
      = (True, snd (handle_dm s_eve ''alice'' 4 (dm_pkt ''bob:eve'' ''secret'') clk0))"
    by (cases "handle_dm s_eve ''alice'' 4 (dm_pkt ''bob:eve'' ''secret'') clk0")
       (simp add: handle_pkt_def d)
  then have s: "s_secret = snd (handle_dm s_eve ''alice'' 4 (dm_pkt ''bob:eve'' ''secret'') clk0)"
    by (simp add: s_secret_def)
  show "handle_pkt s_eve ''alice'' 4 (dm_pkt ''bob:eve'' ''secret'') clk0 = (True, s_secret)"
    by (simp add: h s)
  show "clients s_secret = clients s_eve"
    unfolding s by (simp add: handle_dm_def t(2,3) Let_def split: option.splits)
  have "''bob:eve'' \<noteq> []" "''bob:eve'' \<noteq> ''alice''" "''secret'' \<noteq> []" by simp_all
  from handle_dm_stores[OF t(2) this(1,2) t(3) this(3), of s_eve 4 clk0]
  show "dm_history s_secret ''alice:bob:eve'' =
     Some [\<lparr>d_from = ''alice'', d_to = ''bob:eve'', d_text = ''secret'',
            d_ts = ''12:00'', d_full_ts = ''2024-01-01 12:00:00''\<rparr>]"
    by (simp add: s key_alice_bob_eve s_eve_fields(3) get_or_None clk0_def)
qed

lemma running_s_secret: "running no_hash {} {(4, ''alice''), (5, ''eve'')} s_secret"
proof -
  from running_auth[OF running_s_alice auth_eve]
  have "running no_hash {} {(4, ''alice''), (5, ''eve'')} s_eve"
    by (simp add: insert_commute)
  from running.served[OF this _ dm_secret(1)] show ?thesis by simp
qed

text \<open>
  C8. Threads of direct messages are keyed by the unordered pair of the two participants,
  so that each pair has its own thread, read alike from both sides. The key is the two
  names in sorted order with a colon between them, and a name may itself hold a colon:
  the pairs (\<open>alice\<close>, \<open>bob:eve\<close>) and (\<open>alice:bob\<close>, \<open>eve\<close>) have the one key
  \<open>alice:bob:eve\<close>. In a reachable state, after \<open>alice\<close> has sent a direct message to
  \<open>bob:eve\<close>, the user \<open>eve\<close> asks for her history with \<open>alice:bob\<close> and is sent that
  message.
\<close>

theorem dm_key_collision:
  "reachable no_hash s_secret
   \<and> map_of (clients s_secret) ''eve'' = Some \<lparr>conn = 5, room = ''general''\<rparr>
   \<and> dm_key ''alice'' ''bob:eve'' = dm_key ''eve'' ''alice:bob''
   \<and> dm_history s_secret (dm_key ''alice'' ''bob:eve'') =
       Some [\<lparr>d_from = ''alice'', d_to = ''bob:eve'', d_text = ''secret'',
              d_ts = ''12:00'', d_full_ts = ''2024-01-01 12:00:00''\<rparr>]
   \<and> handle_pkt s_secret ''eve'' 5 (dm_history_pkt ''alice:bob'') clk0 =
       (True, send s_secret 5 (DmHistory ''alice:bob''
          [\<lparr>d_from = ''alice'', d_to = ''bob:eve'', d_text = ''secret'',
            d_ts = ''12:00'', d_full_ts = ''2024-01-01 12:00:00''\<rparr>]))"
proof (intro conjI)
  show "reachable no_hash s_secret"
    unfolding reachable_def using running_s_secret by blast
  show "map_of (clients s_secret) ''eve'' = Some \<lparr>conn = 5, room = ''general''\<rparr>"
    by (simp add: dm_secret(2) s_eve_fields(1))
  show "dm_key ''alice'' ''bob:eve'' = dm_key ''eve'' ''alice:bob''"
    by (simp add: key_alice_bob_eve)
  show "dm_history s_secret (dm_key ''alice'' ''bob:eve'') =
       Some [\<lparr>d_from = ''alice'', d_to = ''bob:eve'', d_text = ''secret'',
              d_ts = ''12:00'', d_full_ts = ''2024-01-01 12:00:00''\<rparr>]"
    by (simp add: key_alice_bob_eve dm_secret(3))
  have w: "lower (strip (get_or (p_with (dm_history_pkt ''alice:bob'')) [])) = ''alice:bob''"
    by (simp add: dm_history_pkt_def empty_pkt_def get_or_def norm_alice_bob)
  have "dispatch s_secret ''eve'' 5 (dm_history_pkt ''alice:bob'') clk0
      = send_dm_history s_secret ''eve'' 5 (dm_history_pkt ''alice:bob'')"
    by (simp add: dispatch_def dm_history_pkt_def empty_pkt_def)
  with send_dm_history_result[OF w, of s_secret "''eve''" 5]
  show "handle_pkt s_secret ''eve'' 5 (dm_history_pkt ''alice:bob'') clk0 =
       (True, send s_secret 5 (DmHistory ''alice:bob''
          [\<lparr>d_from = ''alice'', d_to = ''bob:eve'', d_text = ''secret'',
            d_ts = ''12:00'', d_full_ts = ''2024-01-01 12:00:00''\<rparr>]))"
    by (simp add: handle_pkt_def key_alice_bob_eve dm_secret(3) get_or_Some last_n_def)
qed

subsection \<open>What a broadcast writes\<close>

lemma send_each_sent:
  "sent (send_each s us p ex) =
     sent s @ map (\<lambda>u. (conn (the (map_of (clients s) u)), p))
                (filter (\<lambda>u. Some u \<noteq> ex \<and> map_of (clients s) u \<noteq> None) us)"
  by (induction us arbitrary: s) (auto split: option.splits)

lemma room_message_result:
  assumes "map_of (clients s) u = Some info" "map_of (rooms s) (room info) = Some data"
    "strip (get_or (p_text pkt) []) = text" "text \<noteq> []" "length text \<le> 1000"
  shows "\<exists>s'. handle_msg s u c pkt clk = (Returned, s')
     \<and> map_of (rooms s') (room info) =
         Some (data\<lparr>history := drop (length (history data) + 1 - 500)
            (history data @ [\<lparr>e_from = u, e_text = text, e_ts = ts clk\<rparr>])\<rparr>)
     \<and> sent s' = sent s @
         map (\<lambda>m. (conn (the (map_of (clients s) m)),
                    Msg (room info) \<lparr>e_from = u, e_text = text, e_ts = ts clk\<rparr>))
           (filter (\<lambda>m. map_of (clients s) m \<noteq> None) (room_users s (room info)))"
  using assms last_n_append_one[where h = "history data" and n = 500
      and e = "\<lparr>e_from = u, e_text = text, e_ts = ts clk\<rparr>"]
  by (simp add: handle_msg_def append_history_def Let_def broadcast_room_def send_each_sent
      AList.update_conv')


lemma auth_open_sent:
  assumes "map_of (rooms s) ''general'' \<noteq> None"
  shows "\<exists>others. sent (snd (auth_open s c u)) =
     sent s @ [(c, AuthOk u (room_list_payload (s\<lparr>clients :=
                   AList.update u \<lparr>conn = c, room = ''general''\<rparr> (clients s)\<rparr>))
                 (online_list (s\<lparr>clients :=
                   AList.update u \<lparr>conn = c, room = ''general''\<rparr> (clients s)\<rparr>))),
               (c, System (AlreadyInRoom ''general''))]
       @ map (\<lambda>x. (x, System (CameOnline u))) others"
  using assms
  by (auto simp: auth_open_def join_room_def Let_def AList.update_conv' broadcast_all_def
      send_each_sent comp_def intro!: exI[where x = "map f xs" for f xs])

subsection \<open>Two logins at the same time\<close>

lemma alice_account:
  "users s_alice ''alice'' = Some \<lparr>pw = ''pw1'', joined = ''2024-01-01 12:00:00'', bio = []\<rparr>"
  by (simp add: s_alice_eq)

lemma login_alice_name:
  "a_action (auth_pkt ''login'' ''alice'' p) = Some ''login''"
  "lower (strip (get_or (a_username (auth_pkt ''login'' ''alice'' p)) [])) = ''alice''"
  "get_or (a_password (auth_pkt ''login'' ''alice'' p)) [] = p"
  by (simp_all add: auth_pkt_def get_or_def norm_alice)

lemma s_left_fields:
  "clients s_left = []" "users s_left = users s_alice" "rooms s_left = rooms init_state"
  by (simp_all add: s_left_def disconnect_def Let_def s_alice_eq)

lemma running_s_left: "running no_hash {} {} s_left"
  using running.gone[OF running_s_alice, of 4 "''alice''"] by (simp add: s_left_def)

lemma login_passes_offline:
  "auth_check no_hash s_left c (auth_pkt ''login'' ''alice'' ''pw1'') clk0 = (Some ''alice'', s_left)"
  by (rule login_check_passes[where acct = "\<lparr>pw = ''pw1'', joined = ''2024-01-01 12:00:00'', bio = []\<rparr>"])
     (simp_all add: login_alice_name s_left_fields alice_account no_hash_def)

lemma s_five_fields:
  "clients s_five = [(''alice'', \<lparr>conn = 5, room = ''general''\<rparr>)]"
  "rooms s_five = rooms init_state"
  by (simp_all add: s_five_def auth_open_effect(2) auth_open_frame(1) s_left_fields)

lemma s_six_sent:
  "sent s_six = sent s_five @
     [(6, AuthOk ''alice'' (room_list_payload s_five) [''alice'']),
      (6, System (AlreadyInRoom ''general''))]"
  by (simp add: s_six_def auth_open_def join_room_def Let_def broadcast_all_def online_list_def
      room_list_payload_def s_five_fields init_state_def)

text \<open>
  The check of a login does refuse a name it finds in \<^verbatim>\<open>clients\<close> (\<open>login_check_online\<close>),
  but the storing of the session does not look again (\<open>auth_open_session\<close>).
\<close>

text \<open>
  C4. A user name has at most one live session, and a login for a name that is online
  fails with "Already logged in from another session." and makes or replaces no session.
  \<^verbatim>\<open>handle_client\<close> tests \<^verbatim>\<open>uname in clients\<close> under the lock (lines 175 to 178),
  releases the lock, and stores the session under the lock again (lines 184 and 185)
  without a second test. With \<open>alice\<close> registered and offline, two connections log in as
  \<open>alice\<close> and both threads pass the test before either stores its session: connection 5
  becomes her session, then the login over connection 6 is acknowledged as well and its
  session replaces that of connection 5, while both threads serve their connection as
  \<open>alice\<close>.
\<close>

theorem concurrent_logins_both_open:
  "running no_hash {} {(5, ''alice''), (6, ''alice'')} s_six
   \<and> auth_check no_hash s_left 5 (auth_pkt ''login'' ''alice'' ''pw1'') clk0 = (Some ''alice'', s_left)
   \<and> auth_check no_hash s_left 6 (auth_pkt ''login'' ''alice'' ''pw1'') clk0 = (Some ''alice'', s_left)
   \<and> auth_open s_left 5 ''alice'' = (Some ''alice'', s_five)
   \<and> map_of (clients s_five) ''alice'' = Some \<lparr>conn = 5, room = ''general''\<rparr>
   \<and> auth_open s_five 6 ''alice'' = (Some ''alice'', s_six)
   \<and> map_of (clients s_six) ''alice'' = Some \<lparr>conn = 6, room = ''general''\<rparr>
   \<and> sent s_six = sent s_five @
         [(6, AuthOk ''alice'' (room_list_payload s_five) [''alice'']),
          (6, System (AlreadyInRoom ''general''))]"
proof -
  have o5: "auth_open s_left 5 ''alice'' = (Some ''alice'', s_five)"
    unfolding s_five_def by (rule auth_open_result)
  have o6: "auth_open s_five 6 ''alice'' = (Some ''alice'', s_six)"
    unfolding s_six_def by (rule auth_open_result)
  have w: "running no_hash {(5, ''alice''), (6, ''alice'')} {} s_left"
    using running.passed[OF running.passed[OF running_s_left login_passes_offline[of 6]]
        login_passes_offline[of 5]] by simp
  have "running no_hash {(6, ''alice'')} {(5, ''alice'')} s_five"
    using running.opened[OF w _ o5] by simp
  from running.opened[OF this _ o6]
  have r: "running no_hash {} {(5, ''alice''), (6, ''alice'')} s_six"
    by (simp add: insert_commute)
  have c5: "map_of (clients s_five) ''alice'' = Some \<lparr>conn = 5, room = ''general''\<rparr>"
    unfolding s_five_def by (rule auth_open_session)
  have c6: "map_of (clients s_six) ''alice'' = Some \<lparr>conn = 6, room = ''general''\<rparr>"
    unfolding s_six_def by (rule auth_open_session)
  from r login_passes_offline[of 5] login_passes_offline[of 6] o5 c5 o6 c6 s_six_sent
  show ?thesis by simp
qed



lemma alice_online_two: "map_of (clients s_two) ''alice'' = Some \<lparr>conn = 4, room = ''general''\<rparr>"
  by (simp add: s_two_eq s_alice_eq)




end
